theory Spec2Isabelle
  imports Main "HOL-Library.Word"
begin

unbundle bit_operations_syntax

section \<open>Value types (valtypes.h)\<close>

text \<open>
  \<^verbatim>\<open>ValType\<close> is a C enum used as a set of bit flags; it is modelled as a 32-bit word.
\<close>

type_synonym ValType = "32 word"

definition TYPE_NONE :: ValType where "TYPE_NONE = 0"
definition TYPE_ARRAY :: ValType where "TYPE_ARRAY = 1"
definition TYPE_BOOLEAN :: ValType where "TYPE_BOOLEAN = 2"
definition TYPE_INTEGER :: ValType where "TYPE_INTEGER = 4"
definition TYPE_CALLABLE :: ValType where "TYPE_CALLABLE = 8"

text \<open>A C integer used as a condition is true when it is not zero.\<close>

definition c_true :: "32 word \<Rightarrow> bool" where
  "c_true w = (w \<noteq> 0)"

definition IS_ARRAY_TYPE :: "ValType \<Rightarrow> bool" where
  "IS_ARRAY_TYPE t = c_true (t AND TYPE_ARRAY)"

definition IS_BOOLEAN_TYPE :: "ValType \<Rightarrow> bool" where
  "IS_BOOLEAN_TYPE t = c_true (t AND TYPE_BOOLEAN)"

definition IS_CALLABLE_TYPE :: "ValType \<Rightarrow> bool" where
  "IS_CALLABLE_TYPE t = c_true (t AND TYPE_CALLABLE)"

definition IS_INTEGER_TYPE :: "ValType \<Rightarrow> bool" where
  "IS_INTEGER_TYPE t = c_true (t AND TYPE_INTEGER)"

definition IS_ARRAY :: "ValType \<Rightarrow> bool" where
  "IS_ARRAY t = (IS_ARRAY_TYPE t \<and> \<not> IS_CALLABLE_TYPE t)"

definition IS_PROCEDURE :: "ValType \<Rightarrow> bool" where
  "IS_PROCEDURE t = (IS_CALLABLE_TYPE t \<and> \<not> IS_BOOLEAN_TYPE t \<and> \<not> IS_INTEGER_TYPE t)"

definition IS_FUNCTION :: "ValType \<Rightarrow> bool" where
  "IS_FUNCTION t = (IS_CALLABLE_TYPE t \<and> \<not> IS_PROCEDURE t)"

definition IS_VARIABLE :: "ValType \<Rightarrow> bool" where
  "IS_VARIABLE t = (\<not> IS_CALLABLE_TYPE t \<and> (IS_BOOLEAN_TYPE t \<or> IS_INTEGER_TYPE t))"

section \<open>Token types (token.h)\<close>

datatype TokenType =
    TOK_EOF | TOK_ID | TOK_NUM | TOK_STR
  | TOK_ARRAY | TOK_AS | TOK_BACK | TOK_BOOLEAN | TOK_CHILLAX | TOK_DO | TOK_ELIF | TOK_ELSE
  | TOK_END | TOK_FALSE | TOK_IF | TOK_INPUT | TOK_INTEGER | TOK_LET | TOK_MAIN | TOK_NOT
  | TOK_OUTPUT | TOK_PROGRAM | TOK_RETURNS | TOK_TAKES | TOK_TRUE | TOK_VARS | TOK_WHILE
  | TOK_EQ | TOK_GE | TOK_GT | TOK_LE | TOK_LT | TOK_NE
  | TOK_MINUS | TOK_OR | TOK_PLUS
  | TOK_AND | TOK_DIV | TOK_MOD | TOK_MUL
  | TOK_LPAR | TOK_RPAR | TOK_CAT | TOK_COMMA | TOK_COLON | TOK_SEMICOLON | TOK_LBRACK
  | TOK_RBRACK

section \<open>Fatal errors\<close>

text \<open>
  Every error of the compiler is fatal. The error codes of \<^verbatim>\<open>errmsg.h\<close> are the cases
  that \<^verbatim>\<open>_abort_compile\<close> dispatches on.
\<close>

datatype Error =
    ERR_EXPECT
  | ERR_UNREACHABLE
  | ERR_MISSING_TYPE
  | ERR_MISSING_STATEMENT
  | ERR_MISSING_FACTOR
  | ERR_MISSING_ARRAY_ALLOCATION_OR_EXPRESSION
  | ERR_ILLEGAL_ARRAY_OPERATION
  | ERR_MISSING_STRING_OR_EXPRESSION
  | ERR_UNKNOWN_IDENTIFIER
  | ERR_NOT_A_FUNCTION
  | ERR_NOT_A_PROCEDURE
  | ERR_NOT_A_VARIABLE
  | ERR_NOT_AN_ARRAY
  | ERR_ILLEGAL_INDEXED_ARRAY_ALLOCATION
  | ERR_TOO_FEW_ARGUMENTS
  | ERR_TOO_MANY_ARGUMENTS
  | ERR_ILLEGAL_BACK_EXPRESSION
  | ERR_MISSING_BACK_EXPRESSION
  | ERR_MULTIPLE_DEFINITION
  | ERR_SCALAR_VARIABLE_EXPECTED

record SourcePos =
  line :: int
  col :: int

text \<open>
  The messages of the scanner's calls of \<^verbatim>\<open>leprintf\<close>, with the character they are
  formatted with:
  \<^item> \<open>IllegalCharacter c\<close>: "illegal character '%c' (ASCII #%d)";
  \<^item> \<open>NumberTooLarge\<close>: "number too large";
  \<^item> \<open>NonPrintableCharacter c\<close>: "non-printable character (ASCII #%d)";
  \<^item> \<open>IllegalEscapeCode c\<close>: "illegal escape code ... in string" (\<open>None\<close>: at end of file);
  \<^item> \<open>StringNotClosed\<close>: "string not closed";
  \<^item> \<open>CommentNotClosed\<close>: "comment not closed";
  \<^item> \<open>UnderscoreAfterDigit\<close>: "Illegal character. '_' not allowed after digit in identifier.";
  \<^item> \<open>IdentifierTooLong\<close>: "identifier too long.";
  \<^item> \<open>IllegalCharacterInIdentifier c\<close>: "illegal character '%c' in identifier".
\<close>

datatype lexerr =
    IllegalCharacter char
  | NumberTooLarge
  | NonPrintableCharacter char
  | IllegalEscapeCode "char option"
  | StringNotClosed
  | CommentNotClosed
  | UnderscoreAfterDigit
  | IdentifierTooLong
  | IllegalCharacterInIdentifier char

text \<open>
  Modelled from the spec: \<^verbatim>\<open>leprintf\<close> (declared in \<^verbatim>\<open>error.h\<close>, which is not part of the
  sources) reports its message at the global \<^verbatim>\<open>position\<close> and terminates compilation
  (spec 4.1: a fatal error is "reported immediately, terminating compilation"; spec 7:
  "immediate abort with a formatted, positioned message"). A call of it is the result
  \<open>Inl\<close> of the function that makes it:
  \<^item> \<open>Lexical msg pos\<close>: \<^verbatim>\<open>leprintf\<close> called by the scanner when \<^verbatim>\<open>position\<close> is \<open>pos\<close>;
  \<^item> \<open>Abort err arg\<close>: \<^verbatim>\<open>abort_compile(err, arg)\<close>, whose every case ends in \<^verbatim>\<open>leprintf\<close>
    (\<open>arg\<close> is what the message is formatted with);
  \<^item> \<open>BadArgument err\<close>: \<^verbatim>\<open>abort_compile(err, ...)\<close> called without the argument that the
    message of \<open>err\<close> is formatted with: see \<open>abort_compile\<close> below;
  \<^item> \<open>Incompatible found expected\<close>: the \<^verbatim>\<open>leprintf\<close> of \<^verbatim>\<open>check_types(found, expected, ...)\<close>;
  \<^item> \<open>NullTable\<close>: a hash-table operation applied to a \<^verbatim>\<open>NULL\<close> table pointer;
  \<^item> \<open>OutOfBounds\<close>: a read of \<^verbatim>\<open>idp->params[i]\<close> outside the parameter list.
  The last constructor, \<open>OutOfFuel\<close>, is not an error of the compiler: the parse functions of
  amplc.c call each other recursively and are defined here by recursion on a bound on the
  depth of the calls; \<open>OutOfFuel\<close> is the result when the bound is too small.
\<close>

text \<open>What the message of \<^verbatim>\<open>abort_compile\<close> is formatted with: an identifier or a token type.\<close>

datatype errarg = NoArg | Name string | Tok TokenType

datatype failure =
    Lexical lexerr SourcePos
  | Abort Error errarg
  | BadArgument Error
  | Incompatible ValType ValType
  | NullTable
  | OutOfBounds
  | OutOfFuel

section \<open>Symbol table (symboltable.c over hashtable.c)\<close>

record IDprop =
  type :: ValType
  offset :: "32 word"
  nparams :: "32 word"
  params :: "ValType list"

text \<open>
  A hash table is modelled by its entries in insertion order. The bucket array, the hash
  function and rehashing decide only where an entry is stored; \<^verbatim>\<open>ht_insert\<close> refuses a key
  that \<^verbatim>\<open>ht_search\<close> finds, so a table never holds a key twice. Keys are compared with
  \<^verbatim>\<open>strcmp\<close>, that is, as strings. Values are \<^verbatim>\<open>IDprop\<close> objects, stored here by value.
\<close>

type_synonym HashTab = "(string \<times> IDprop) list"

datatype ht_status = EXIT_SUCCESS | HASH_TABLE_KEY_VALUE_PAIR_EXISTS

text \<open>
  \<^verbatim>\<open>ht_search(ht, key, &value)\<close>: \<open>Some v\<close> is the result \<^verbatim>\<open>TRUE\<close> with \<^verbatim>\<open>*value = v\<close>;
  \<open>None\<close> is the result \<^verbatim>\<open>FALSE\<close>, which leaves \<^verbatim>\<open>*value\<close> as it was.
\<close>

fun ht_search :: "HashTab \<Rightarrow> string \<Rightarrow> IDprop option" where
  "ht_search [] key = None"
| "ht_search ((k, v) # p) key = (if key = k then Some v else ht_search p key)"

definition ht_insert :: "HashTab \<Rightarrow> string \<Rightarrow> IDprop \<Rightarrow> ht_status \<times> HashTab" where
  "ht_insert ht key val =
     (if ht_search ht key \<noteq> None then (HASH_TABLE_KEY_VALUE_PAIR_EXISTS, ht)
      else (EXIT_SUCCESS, ht @ [(key, val)]))"

text \<open>
  The state of symboltable.c: the two table pointers and the offset counter. The tables
  live in a store (address = index) because \<^verbatim>\<open>table\<close> and \<^verbatim>\<open>saved_table\<close> can point to
  the same table. \<open>None\<close> is the \<^verbatim>\<open>NULL\<close> pointer.
\<close>

record symtab =
  heap :: "HashTab list"
  table :: "nat option"
  saved_table :: "nat option"
  curr_offset :: "32 word"

definition ht_init :: "symtab \<Rightarrow> nat option \<times> symtab" where
  "ht_init st = (Some (length (heap st)), st\<lparr>heap := heap st @ [[]]\<rparr>)"

definition ht_at :: "symtab \<Rightarrow> nat option \<Rightarrow> HashTab option" where
  "ht_at st p =
     (case p of None \<Rightarrow> None
      | Some a \<Rightarrow> if a < length (heap st) then Some (heap st ! a) else None)"

text \<open>The table that \<^verbatim>\<open>table\<close> points to.\<close>

definition cur :: "symtab \<Rightarrow> HashTab option" where
  "cur st = ht_at st (table st)"

definition init_symbol_table :: symtab where
  "init_symbol_table =
     (let st = \<lparr>heap = [], table = None, saved_table = None, curr_offset = 0\<rparr>;
          (p, st1) = ht_init st
      in st1\<lparr>table := p, curr_offset := 0\<rparr>)"

text \<open>
  \<^verbatim>\<open>find_name(id, &prop)\<close> returns the Boolean and what it wrote to \<^verbatim>\<open>*prop\<close>
  (\<open>None\<close>: nothing written).
\<close>

definition find_name :: "string \<Rightarrow> symtab \<Rightarrow> failure + (bool \<times> IDprop option)" where
  "find_name name st =
     (case ht_at st (table st) of
        None \<Rightarrow> Inl NullTable
      | Some t \<Rightarrow>
          (case ht_search t name of
             Some p \<Rightarrow> Inr (True, Some p)
           | None \<Rightarrow>
               if saved_table st \<noteq> None then
                 (case ht_at st (saved_table st) of
                    None \<Rightarrow> Inl NullTable
                  | Some sv \<Rightarrow>
                      (case ht_search sv name of
                         Some p \<Rightarrow>
                           if \<not> IS_CALLABLE_TYPE (type p) then Inr (False, Some p)
                           else Inr (True, Some p)
                       | None \<Rightarrow> Inr (False, None)))
               else Inr (False, None)))"

definition insert_name :: "string \<Rightarrow> IDprop \<Rightarrow> symtab \<Rightarrow> failure + (bool \<times> symtab)" where
  "insert_name name prop st =
     (case find_name name st of
        Inl e \<Rightarrow> Inl e
      | Inr (found, _) \<Rightarrow>
          if found then Inl (Abort ERR_MULTIPLE_DEFINITION (Name name))
          else
            let is_var = (c_true (type prop AND TYPE_INTEGER) \<or> c_true (type prop AND TYPE_BOOLEAN));
                assign = (is_var \<and> name \<noteq> ''main'' \<and> \<not> c_true (type prop AND TYPE_CALLABLE));
                prop1 = (if assign then prop\<lparr>offset := curr_offset st\<rparr> else prop);
                st1 = (if assign then st\<lparr>curr_offset := curr_offset st + 1\<rparr> else st)
            in (case (table st1, ht_at st1 (table st1)) of
                  (Some a, Some t) \<Rightarrow>
                    (case ht_insert t name prop1 of
                       (EXIT_SUCCESS, t') \<Rightarrow> Inr (True, st1\<lparr>heap := (heap st1)[a := t']\<rparr>)
                     | (HASH_TABLE_KEY_VALUE_PAIR_EXISTS, t') \<Rightarrow>
                         Inr (False,
                              if is_var then st1\<lparr>curr_offset := curr_offset st1 - 1\<rparr> else st1))
                | _ \<Rightarrow> Inl NullTable))"

definition open_subroutine :: "string \<Rightarrow> IDprop \<Rightarrow> symtab \<Rightarrow> failure + (bool \<times> symtab)" where
  "open_subroutine name prop st =
     (case insert_name name prop (st\<lparr>curr_offset := 0\<rparr>) of
        Inl e \<Rightarrow> Inl e
      | Inr (insert_success, st1) \<Rightarrow>
          if insert_success then
            let (p1, st2) = ht_init st1;
                st3 = st2\<lparr>saved_table := p1\<rparr>;
                st4 = st3\<lparr>saved_table := table st3\<rparr>;
                (p2, st5) = ht_init st4
            in Inr (insert_success, st5\<lparr>table := p2\<rparr>)
          else Inr (insert_success, st1))"

definition close_subroutine :: "symtab \<Rightarrow> symtab" where
  "close_subroutine st =
     (let st1 = st\<lparr>table := None\<rparr>;
          (p, st2) = ht_init st1;
          st3 = st2\<lparr>table := p\<rparr>
      in st3\<lparr>table := saved_table st3\<rparr>)"

definition get_variables_width :: "symtab \<Rightarrow> int" where
  "get_variables_width st = sint (curr_offset st)"

definition reset_offset :: "symtab \<Rightarrow> symtab" where
  "reset_offset st = st\<lparr>curr_offset := 0\<rparr>"

definition return_curr_offset :: "symtab \<Rightarrow> int" where
  "return_curr_offset st = sint (curr_offset st)"

subsection \<open>The declaration loop of \<^verbatim>\<open>parse_body\<close> (amplc.c)\<close>

text \<open>
  \<^verbatim>\<open>parse_body\<close> drains the list of declared variables into the symbol table, each with a
  fresh \<^verbatim>\<open>IDprop\<close> made by \<^verbatim>\<open>idprop(vars->type, 0, 0, NULL)\<close>. A \<^verbatim>\<open>Variable\<close> is the list
  node of amplc.c without its source position and link.
\<close>

record Variable =
  vid :: string
  vtype :: ValType

definition idprop :: "ValType \<Rightarrow> 32 word \<Rightarrow> 32 word \<Rightarrow> ValType list \<Rightarrow> IDprop" where
  "idprop t off n ps = \<lparr>type = t, offset = off, nparams = n, params = ps\<rparr>"

fun insert_variables :: "Variable list \<Rightarrow> symtab \<Rightarrow> failure + symtab" where
  "insert_variables [] st = Inr st"
| "insert_variables (v # vars) st =
     (case insert_name (vid v) (idprop (vtype v) 0 0 []) st of
        Inl e \<Rightarrow> Inl e
      | Inr (_, st1) \<Rightarrow> insert_variables vars st1)"


subsection \<open>Example states\<close>

text \<open>
  Inside the body of a subroutine: the global table holds the function \<open>f\<close> and a
  non-callable entry \<open>g\<close>, the local table holds \<open>y\<close>.
\<close>

definition scope_example :: symtab where
  "scope_example =
     \<lparr>heap = [[(''f'', idprop (TYPE_CALLABLE OR TYPE_INTEGER) 0 1 [TYPE_INTEGER]),
               (''g'', idprop TYPE_INTEGER 0 0 [])],
              [(''y'', idprop TYPE_BOOLEAN 0 0 [])]],
      table = Some 1, saved_table = Some 0, curr_offset = 1\<rparr>"


text \<open>At the end of the body of \<open>f\<close>, which declared two locals.\<close>

definition body_example :: symtab where
  "body_example =
     \<lparr>heap = [[(''f'', idprop TYPE_CALLABLE 0 1 [TYPE_INTEGER])],
              [(''a'', idprop TYPE_INTEGER 0 0 []), (''b'', idprop TYPE_INTEGER 1 0 [])]],
      table = Some 1, saved_table = Some 0, curr_offset = 2\<rparr>"

section \<open>Scanner (scanner.c, token.h)\<close>

text \<open>
  A token: its type and the members of the C union, kept apart here (the scanner writes
  one member per token and never reads another).
\<close>

record Token =
  toktype :: TokenType
  "value" :: int
  lexeme :: string
  strval :: string

definition MAX_ID_LENGTH :: nat where "MAX_ID_LENGTH = 32"
definition INT_MAX :: int where "INT_MAX = 2147483647"

text \<open>
  The value of a \<^verbatim>\<open>TOK_NUM\<close> token is a C \<^verbatim>\<open>int\<close>: arithmetic on it is followed by \<open>int32\<close>,
  the wrap-around to 32 bits in two's complement.
\<close>

definition int32 :: "int \<Rightarrow> int" where
  "int32 x = (x + 2147483648) mod 4294967296 - 2147483648"

text \<open>The character classes of \<^verbatim>\<open>ctype.h\<close> in the C locale, by ASCII code.\<close>

definition isdigit :: "char \<Rightarrow> bool" where
  "isdigit c = (48 \<le> (of_char c :: nat) \<and> (of_char c :: nat) \<le> 57)"

definition isalpha :: "char \<Rightarrow> bool" where
  "isalpha c = ((65 \<le> (of_char c :: nat) \<and> (of_char c :: nat) \<le> 90)
              \<or> (97 \<le> (of_char c :: nat) \<and> (of_char c :: nat) \<le> 122))"

definition isspace :: "char \<Rightarrow> bool" where
  "isspace c = ((of_char c :: nat) = 32 \<or> (9 \<le> (of_char c :: nat) \<and> (of_char c :: nat) \<le> 13))"

text \<open>
  The state of the scanner: the characters of the source file not yet read (\<^verbatim>\<open>getc\<close> takes
  them from the front), the lookahead character \<^verbatim>\<open>ch\<close> (\<open>None\<close> is \<^verbatim>\<open>EOF\<close>), the global
  \<^verbatim>\<open>position\<close> that errors are reported at, and \<^verbatim>\<open>column_number\<close>. Lines and columns are
  unbounded integers here.
\<close>

record scanner =
  src :: string
  ch :: "char option"
  position :: SourcePos
  column_number :: int

definition next_char :: "scanner \<Rightarrow> scanner" where
  "next_char s =
     (let last_read = ch s;
          s1 = (case src s of
                  [] \<Rightarrow> s\<lparr>ch := None\<rparr>
                | c # cs \<Rightarrow> s\<lparr>ch := Some c, src := cs\<rparr>)
      in if last_read = Some (CHR 0x0A)
         then s1\<lparr>position := \<lparr>line = line (position s1) + 1, col = 0\<rparr>, column_number := 0\<rparr>
         else s1\<lparr>position := (position s1)\<lparr>col := col (position s1) + 1\<rparr>,
                 column_number := column_number s1 + 1\<rparr>)"

definition init_scanner :: "string \<Rightarrow> scanner" where
  "init_scanner in_file =
     next_char \<lparr>src = in_file, ch = Some (CHR 0x00),
                position = \<lparr>line = 1, col = 0\<rparr>, column_number = 0\<rparr>"

text \<open>What is left to read, counting the lookahead character: the measure of every loop.\<close>

definition remaining :: "scanner \<Rightarrow> nat" where
  "remaining s = length (src s) + (if ch s = None then 0 else 1)"

lemma remaining_next_char: "ch s \<noteq> None \<Longrightarrow> remaining (next_char s) < remaining s"
  by (auto simp: remaining_def next_char_def Let_def split: list.splits)

text \<open>The loop at the start of \<^verbatim>\<open>get_token\<close>: \<^verbatim>\<open>while (isspace(ch) || ch == 10) next_char();\<close>\<close>

function skip_space :: "scanner \<Rightarrow> scanner" where
  "skip_space s =
     (case ch s of
        None \<Rightarrow> s
      | Some c \<Rightarrow> if isspace c \<or> c = CHR 0x0A then skip_space (next_char s) else s)"
  by pat_completeness auto
termination
  by (relation "measure remaining") (auto simp: remaining_next_char)

text \<open>\<^verbatim>\<open>process_number\<close>: the assignments before the loop, the loop and the check after it.\<close>

function process_number_loop :: "Token \<Rightarrow> scanner \<Rightarrow> failure + (Token \<times> scanner)" where
  "process_number_loop token s =
     (case ch s of
        None \<Rightarrow> Inr (token, s)
      | Some c \<Rightarrow>
          if isdigit c then
            if value token > (INT_MAX - (int (of_char c) - 48)) div 10
            then Inl (Lexical NumberTooLarge (position s))
            else process_number_loop
                   (token\<lparr>value := int32 (value token * 10 + (int (of_char c) - 48))\<rparr>)
                   (next_char s)
          else if isalpha c \<or> c = CHR ''_'' then Inl (Lexical (IllegalCharacter c) (position s))
          else Inr (token, s))"
  by pat_completeness auto
termination
  by (relation "measure (\<lambda>(t, s). remaining s)") (auto simp: remaining_next_char)

definition process_number :: "Token \<Rightarrow> scanner \<Rightarrow> failure + (Token \<times> scanner)" where
  "process_number token s =
     process_number_loop
       (token\<lparr>value := int (of_char (the (ch s))) - 48, toktype := TOK_NUM\<rparr>) (next_char s)"

text \<open>
  \<^verbatim>\<open>skip_comment\<close> saves the position in \<^verbatim>\<open>start_pos\<close>, runs its loop, which calls
  \<^verbatim>\<open>skip_comment\<close> again on an opening brace, and reads one more character after the
  closing brace.
\<close>

function skip_comment_loop :: "SourcePos \<Rightarrow> scanner \<Rightarrow> failure + scanner" where
  "skip_comment_loop start_pos s =
     (if ch s = Some (CHR ''}'') then Inr (next_char s)
      else if ch s = Some (CHR ''{'') then
        (case skip_comment_loop (position (next_char s)) (next_char s) of
           Inl e \<Rightarrow> Inl e
         | Inr s1 \<Rightarrow> skip_comment_loop start_pos s1)
      else if ch s = None then Inl (Lexical CommentNotClosed start_pos)
      else skip_comment_loop start_pos (next_char s))"
  by pat_completeness auto

lemma skip_comment_loop_remaining:
  "skip_comment_loop_dom (p, s) \<Longrightarrow> skip_comment_loop p s = Inr s' \<Longrightarrow> remaining s' < remaining s"
proof (induction p s arbitrary: s' rule: skip_comment_loop.pinduct)
  case (1 start_pos s)
  show ?case
  proof (cases "ch s = Some (CHR ''}'')")
    case True
    with "1.hyps" "1.prems" show ?thesis by (auto simp: skip_comment_loop.psimps remaining_next_char)
  next
    case False
    show ?thesis
    proof (cases "ch s = Some (CHR ''{'')")
      case True
      with "1.hyps" "1.prems" False obtain s1 where
        a: "skip_comment_loop (position (next_char s)) (next_char s) = Inr s1"
        and b: "skip_comment_loop start_pos s1 = Inr s'"
        by (auto simp: skip_comment_loop.psimps split: sum.splits)
      from "1.IH"(1) [OF False True a] have "remaining s1 < remaining (next_char s)" .
      moreover from "1.IH"(2) [OF False True a b] have "remaining s' < remaining s1" .
      moreover from True have "remaining (next_char s) < remaining s"
        by (simp add: remaining_next_char)
      ultimately show ?thesis by simp
    next
      case F2: False
      with "1.hyps" "1.prems" False have n: "ch s \<noteq> None"
        and b: "skip_comment_loop start_pos (next_char s) = Inr s'"
        by (auto simp: skip_comment_loop.psimps split: if_splits)
      from "1.IH"(3) [OF False F2 n b] have "remaining s' < remaining (next_char s)" .
      with n show ?thesis using remaining_next_char [of s] by simp
    qed
  qed
qed

lemma skip_comment_loop_total: "All skip_comment_loop_dom"
proof (rule "skip_comment_loop.termination" [of "measure (\<lambda>(p, s). remaining s)"], goal_cases)
  case 1
  show ?case by simp
next
  case (2 start_pos s)
  then show ?case by (simp add: remaining_next_char)
next
  case (3 start_pos s x2)
  from skip_comment_loop_remaining [OF 3(4) 3(3)] 3(2)
  show ?case using remaining_next_char [of s] by simp
next
  case (4 start_pos s)
  then show ?case by (simp add: remaining_next_char)
qed

termination skip_comment_loop
  by (rule skip_comment_loop_total)

lemma skip_comment_loop_less:
  "skip_comment_loop p s = Inr s' \<Longrightarrow> remaining s' < remaining s"
  using skip_comment_loop_remaining [OF skip_comment_loop_total [THEN spec]] .

definition skip_comment :: "scanner \<Rightarrow> failure + scanner" where
  "skip_comment s = skip_comment_loop (position s) s"

lemma remaining_skip_space: "remaining (skip_space s) \<le> remaining s"
proof (induction s rule: skip_space.induct)
  case (1 s)
  show ?case
  proof (cases "ch s")
    case None
    then show ?thesis by simp
  next
    case (Some c)
    show ?thesis
    proof (cases "isspace c \<or> c = CHR 0x0A")
      case True
      with Some 1 have "remaining (skip_space (next_char s)) \<le> remaining (next_char s)" by simp
      moreover from Some have "remaining (next_char s) < remaining s"
        by (simp add: remaining_next_char)
      ultimately show ?thesis using Some True by simp
    next
      case False
      with Some show ?thesis by simp
    qed
  qed
qed

text \<open>
  \<^verbatim>\<open>process_string\<close>: the buffer \<^verbatim>\<open>cp\<close> is the list of the characters written so far, so the
  index \<^verbatim>\<open>i\<close> is its length; its capacity is not modelled. After a backslash that is not
  the first character, the next character is checked and copied too.
\<close>

function process_string_loop :: "string \<Rightarrow> scanner \<Rightarrow> failure + (string \<times> scanner)" where
  "process_string_loop cp s =
     (case ch s of
        None \<Rightarrow> Inr (cp, s)
      | Some c \<Rightarrow>
          if c = CHR 0x22 then Inr (cp, s)
          else if c = CHR 0x09 then Inl (Lexical (NonPrintableCharacter c) (position s))
          else if 1 \<le> length cp \<and> c = CHR 0x5C then
            (case ch (next_char s) of
               None \<Rightarrow>
                 Inl (Lexical (IllegalEscapeCode None)
                        ((position (next_char s))\<lparr>col := col (position (next_char s)) - 1\<rparr>))
             | Some e \<Rightarrow>
                 if e \<noteq> CHR ''n'' \<and> e \<noteq> CHR ''t'' \<and> e \<noteq> CHR 0x22 \<and> e \<noteq> CHR 0x5C then
                   Inl (Lexical (IllegalEscapeCode (Some e))
                          ((position (next_char s))\<lparr>col := col (position (next_char s)) - 1\<rparr>))
                 else process_string_loop (cp @ [c, e]) (next_char (next_char s)))
          else process_string_loop (cp @ [c]) (next_char s))"
  by pat_completeness auto
termination
proof (relation "measure (\<lambda>(cp, s). remaining s)", goal_cases)
  case 1
  show ?case by simp
next
  case (2 cp s c e)
  then have "remaining (next_char (next_char s)) < remaining (next_char s)"
    by (simp add: remaining_next_char)
  moreover from 2 have "remaining (next_char s) < remaining s"
    by (simp add: remaining_next_char)
  ultimately show ?case by simp
next
  case (3 cp s c)
  then show ?case by (simp add: remaining_next_char)
qed

definition process_string :: "Token \<Rightarrow> scanner \<Rightarrow> failure + (Token \<times> scanner)" where
  "process_string token s =
     (let start_col = col (position s) - 1;
          start_line = line (position s) - 1
      in case process_string_loop [] s of
           Inl e \<Rightarrow> Inl e
         | Inr (cp, s1) \<Rightarrow>
             if ch s1 = None
             then Inl (Lexical StringNotClosed \<lparr>line = start_line, col = start_col\<rparr>)
             else Inr (token\<lparr>strval := takeWhile (\<lambda>c. c \<noteq> CHR 0x00) cp, toktype := TOK_STR\<rparr>, s1))"

text \<open>\<^verbatim>\<open>process_word\<close>: the table of reserved words and the binary search through it.\<close>

definition reserved :: "(string \<times> TokenType) list" where
  "reserved =
     [(''and'', TOK_AND), (''array'', TOK_ARRAY), (''as'', TOK_AS), (''back'', TOK_BACK),
      (''boolean'', TOK_BOOLEAN), (''chillax'', TOK_CHILLAX), (''do'', TOK_DO),
      (''elif'', TOK_ELIF), (''else'', TOK_ELSE), (''end'', TOK_END), (''false'', TOK_FALSE),
      (''if'', TOK_IF), (''input'', TOK_INPUT), (''integer'', TOK_INTEGER), (''let'', TOK_LET),
      (''main'', TOK_MAIN), (''mod'', TOK_MOD), (''not'', TOK_NOT), (''or'', TOK_OR),
      (''output'', TOK_OUTPUT), (''program'', TOK_PROGRAM), (''returns'', TOK_RETURNS),
      (''takes'', TOK_TAKES), (''true'', TOK_TRUE), (''vars'', TOK_VARS), (''while'', TOK_WHILE)]"

definition NUM_RESERVED_WORDS :: nat where
  "NUM_RESERVED_WORDS = length reserved"

fun strcmp :: "string \<Rightarrow> string \<Rightarrow> int" where
  "strcmp [] [] = 0"
| "strcmp [] (y # ys) = -1"
| "strcmp (x # xs) [] = 1"
| "strcmp (x # xs) (y # ys) =
     (if x = y then strcmp xs ys
      else if (of_char x :: nat) < of_char y then -1 else 1)"

text \<open>
  One round of the search loop recomputes \<^verbatim>\<open>mid\<close> and \<^verbatim>\<open>cmp\<close> from \<^verbatim>\<open>low\<close> and \<^verbatim>\<open>high\<close>, which
  is what the C loop carries from the round before.
\<close>

function search_reserved :: "string \<Rightarrow> nat \<Rightarrow> nat \<Rightarrow> TokenType option" where
  "search_reserved lexm low high =
     (if high - low > 1 then
        let mid = (high + low) div 2;
            cmp = strcmp lexm (fst (reserved ! mid));
            high1 = (if cmp < 0 then mid else high);
            low1 = (if cmp < 0 then low else if cmp > 0 then mid else low);
            mid1 = (high1 + low1) div 2;
            cmp1 = strcmp lexm (fst (reserved ! mid1))
        in if cmp1 = 0 then Some (snd (reserved ! mid1))
           else search_reserved lexm low1 high1
      else None)"
  by pat_completeness auto
termination
  by (relation "measure (\<lambda>(lexm, low, high). high - low)") (auto simp: Let_def split: if_splits)

text \<open>
  The identifier loop. With \<^verbatim>\<open>i = 0\<close> the C code reads \<^verbatim>\<open>token->lexeme[-1]\<close>, a byte of the
  token type, which is not a digit.
\<close>

function process_word_loop :: "string \<Rightarrow> scanner \<Rightarrow> failure + (string \<times> scanner)" where
  "process_word_loop lexm s =
     (case ch s of
        None \<Rightarrow> Inr (lexm, s)
      | Some c \<Rightarrow>
          if isdigit c \<or> isalpha c \<or> c = CHR ''_'' then
            if length lexm < MAX_ID_LENGTH then
              if c = CHR ''_'' \<and> lexm \<noteq> [] \<and> isdigit (last lexm)
              then Inl (Lexical UnderscoreAfterDigit (position s))
              else process_word_loop (lexm @ [c]) (next_char s)
            else Inl (Lexical IdentifierTooLong (position s))
          else Inr (lexm, s))"
  by pat_completeness auto
termination
  by (relation "measure (\<lambda>(lexm, s). remaining s)") (auto simp: remaining_next_char)

definition process_word :: "Token \<Rightarrow> scanner \<Rightarrow> failure + (Token \<times> scanner)" where
  "process_word token s =
     (let s0 = s\<lparr>position := (position s)\<lparr>col := column_number s\<rparr>\<rparr>
      in case process_word_loop [] s0 of
           Inl e \<Rightarrow> Inl e
         | Inr (lexm, s1) \<Rightarrow>
             if ch s1 = Some (CHR ''^'')
             then Inl (Lexical (IllegalCharacterInIdentifier (CHR ''^'')) (position s1))
             else
               (case search_reserved lexm 0 NUM_RESERVED_WORDS of
                  Some t \<Rightarrow> Inr (token\<lparr>toktype := t, lexeme := lexm\<rparr>, s1)
                | None \<Rightarrow> Inr (token\<lparr>toktype := TOK_ID, lexeme := lexm\<rparr>, s1)))"

text \<open>The \<^verbatim>\<open>switch\<close> of \<^verbatim>\<open>get_token\<close> for operators and punctuation.\<close>

definition punctuation :: "char \<Rightarrow> scanner \<Rightarrow> (TokenType \<times> scanner) option" where
  "punctuation c s =
     (let s1 = next_char s;
          eq = (ch s1 = Some (CHR ''=''))
      in if c = CHR ''='' then Some (TOK_EQ, s1)
         else if c = CHR ''>'' then Some (if eq then (TOK_GE, next_char s1) else (TOK_GT, s1))
         else if c = CHR ''<'' then Some (if eq then (TOK_LE, next_char s1) else (TOK_LT, s1))
         else if c = CHR ''/'' then Some (if eq then (TOK_NE, next_char s1) else (TOK_DIV, s1))
         else if c = CHR ''-'' then Some (TOK_MINUS, s1)
         else if c = CHR ''+'' then Some (TOK_PLUS, s1)
         else if c = CHR ''%'' then Some (TOK_MOD, s1)
         else if c = CHR ''*'' then Some (TOK_MUL, s1)
         else if c = CHR ''('' then Some (TOK_LPAR, s1)
         else if c = CHR '')'' then Some (TOK_RPAR, s1)
         else if c = CHR ''&'' then Some (TOK_CAT, s1)
         else if c = CHR '','' then Some (TOK_COMMA, s1)
         else if c = CHR '':'' then Some (TOK_COLON, s1)
         else if c = CHR '';'' then Some (TOK_SEMICOLON, s1)
         else if c = CHR ''['' then Some (TOK_LBRACK, s1)
         else if c = CHR '']'' then Some (TOK_RBRACK, s1)
         else None)"

function get_token :: "Token \<Rightarrow> scanner \<Rightarrow> failure + (Token \<times> scanner)" where
  "get_token token s =
     (let s1 = skip_space s;
          s2 = s1\<lparr>position := (position s1)\<lparr>col := column_number s1\<rparr>\<rparr>
      in case ch s2 of
           None \<Rightarrow> Inr (token\<lparr>toktype := TOK_EOF\<rparr>, s2)
         | Some c \<Rightarrow>
             if isalpha c \<or> c = CHR ''_'' then process_word token s2
             else if isdigit c then process_number token s2
             else if c = CHR 0x22 then
               (case process_string token (next_char s2) of
                  Inl e \<Rightarrow> Inl e
                | Inr (token1, s3) \<Rightarrow> Inr (token1, next_char s3))
             else if c = CHR ''{'' then
               (case skip_comment
                       ((next_char s2)\<lparr>position :=
                          (position (next_char s2))\<lparr>col := col (position (next_char s2)) - 1\<rparr>\<rparr>) of
                  Inl e \<Rightarrow> Inl e
                | Inr s3 \<Rightarrow> get_token token s3)
             else
               (case punctuation c s2 of
                  Some (t, s3) \<Rightarrow> Inr (token\<lparr>toktype := t\<rparr>, s3)
                | None \<Rightarrow> Inl (Lexical (IllegalCharacter c) (position s2))))"
  by pat_completeness auto
termination
proof (relation "measure (\<lambda>(token, s). remaining s)", goal_cases)
  case 1
  show ?case by simp
next
  case (2 token s s1 s2 c s3)
  let ?n = "next_char s2"
  from 2 have "skip_comment_loop (position (?n\<lparr>position := (position ?n)\<lparr>col := col (position ?n) - 1\<rparr>\<rparr>))
      (?n\<lparr>position := (position ?n)\<lparr>col := col (position ?n) - 1\<rparr>\<rparr>) = Inr s3"
    by (simp add: skip_comment_def)
  from skip_comment_loop_less [OF this]
  have "remaining s3 < remaining ?n" by (simp add: remaining_def)
  moreover from 2 have "remaining ?n < remaining s2" by (simp add: remaining_next_char)
  moreover from 2 have "remaining s2 \<le> remaining s"
    using remaining_skip_space [of s] by (simp add: remaining_def)
  ultimately show ?case by simp
qed


text \<open>
  The recursion equations are unfolded where a proof asks for them, not by the simplifier
  on its own.
\<close>

declare skip_space.simps [simp del]
declare process_number_loop.simps [simp del]
declare skip_comment_loop.simps [simp del]
declare process_string_loop.simps [simp del]
declare search_reserved.simps [simp del]
declare process_word_loop.simps [simp del]
declare get_token.simps [simp del]

subsection \<open>Notions used in the statements about the scanner\<close>

text \<open>\<^verbatim>\<open>position.col\<close> agrees with \<^verbatim>\<open>column_number\<close>.\<close>

definition in_sync :: "scanner \<Rightarrow> bool" where
  "in_sync s = (col (position s) = column_number s)"

text \<open>A token before the first call of \<^verbatim>\<open>get_token\<close>.\<close>

definition tok0 :: Token where
  "tok0 = \<lparr>toktype = TOK_EOF, value = 0, lexeme = [], strval = []\<rparr>"

text \<open>The value of a digit, and the decimal value of a run of digits.\<close>

definition digit_val :: "char \<Rightarrow> int" where
  "digit_val c = int (of_char c) - 48"

definition dec_from :: "int \<Rightarrow> string \<Rightarrow> int" where
  "dec_from v ds = foldl (\<lambda>v c. v * 10 + digit_val c) v ds"

definition dec_val :: "string \<Rightarrow> int" where
  "dec_val ds = dec_from 0 ds"

text \<open>The input from the lookahead character on.\<close>

definition ahead :: "scanner \<Rightarrow> string" where
  "ahead s = (case ch s of None \<Rightarrow> [] | Some c \<Rightarrow> c # src s)"


definition set_col :: "int \<Rightarrow> scanner \<Rightarrow> scanner" where
  "set_col c s = s\<lparr>position := (position s)\<lparr>col := c\<rparr>\<rparr>"

section \<open>Parser and type checker (amplc.c): expressions and calls\<close>

text \<open>
  The global variables of amplc.c that the expression parser uses, with the states of
  the scanner and of the symbol table. The calls into the code generator (\<^verbatim>\<open>gen_1\<close>,
  \<^verbatim>\<open>gen_2\<close>, \<^verbatim>\<open>gen_call\<close>, ...) are left out: the code generator is not part of the sources
  and returns nothing to the parser. So is the arithmetic that the parse functions for
  expressions and calls do on \<^verbatim>\<open>position\<close>, which only decides where an error of the parser
  is reported: \<^verbatim>\<open>get_token\<close> overwrites \<^verbatim>\<open>position.col\<close> before it reads it, and
  \<^verbatim>\<open>position.line\<close> is assigned only on the way to an error.
\<close>

record parser =
  scan :: scanner
  token :: Token
  symbols :: symtab
  is_assign :: bool
  is_if_or_while :: bool
  stack_depth :: int
  max_stack_depth :: int

text \<open>
  \<^verbatim>\<open>_abort_compile\<close> formats the message of an error code with one argument that it reads
  with \<^verbatim>\<open>va_arg\<close>: a token type (\<^verbatim>\<open>va_arg(args, int)\<close>, passed on to \<^verbatim>\<open>get_token_string\<close>) or
  a string (\<^verbatim>\<open>va_arg(args, char *)\<close>); three codes have a message without argument.
\<close>

datatype argkind = ReadsNothing | ReadsToken | ReadsString

fun reads :: "Error \<Rightarrow> argkind" where
  "reads ERR_EXPECT = ReadsToken"
| "reads ERR_UNREACHABLE = ReadsNothing"
| "reads ERR_MISSING_TYPE = ReadsToken"
| "reads ERR_MISSING_STATEMENT = ReadsToken"
| "reads ERR_MISSING_FACTOR = ReadsToken"
| "reads ERR_MISSING_ARRAY_ALLOCATION_OR_EXPRESSION = ReadsToken"
| "reads ERR_ILLEGAL_ARRAY_OPERATION = ReadsToken"
| "reads ERR_MISSING_STRING_OR_EXPRESSION = ReadsToken"
| "reads ERR_UNKNOWN_IDENTIFIER = ReadsString"
| "reads ERR_NOT_A_FUNCTION = ReadsString"
| "reads ERR_NOT_A_PROCEDURE = ReadsString"
| "reads ERR_NOT_A_VARIABLE = ReadsString"
| "reads ERR_NOT_AN_ARRAY = ReadsString"
| "reads ERR_ILLEGAL_INDEXED_ARRAY_ALLOCATION = ReadsString"
| "reads ERR_TOO_FEW_ARGUMENTS = ReadsString"
| "reads ERR_TOO_MANY_ARGUMENTS = ReadsString"
| "reads ERR_ILLEGAL_BACK_EXPRESSION = ReadsNothing"
| "reads ERR_MISSING_BACK_EXPRESSION = ReadsNothing"
| "reads ERR_MULTIPLE_DEFINITION = ReadsString"
| "reads ERR_SCALAR_VARIABLE_EXPECTED = ReadsString"

text \<open>
  \<^verbatim>\<open>abort_compile(err, ...)\<close> with the argument \<open>a\<close> that the call passes (\<open>NoArg\<close>: none).
  When the call passes the kind of argument that \<^verbatim>\<open>_abort_compile\<close> reads, the result is the
  fatal error with its message. When it passes none, or one of the other kind, \<^verbatim>\<open>va_arg\<close>
  has undefined behaviour: the value read is arbitrary (\<^verbatim>\<open>get_token_string\<close> asserts that a
  token type is in range), and the program has no defined message. That is the result
  \<open>BadArgument\<close>.
\<close>

definition abort_compile :: "Error \<Rightarrow> errarg \<Rightarrow> failure" where
  "abort_compile err a =
     (case reads err of
        ReadsNothing \<Rightarrow> Abort err NoArg
      | ReadsToken \<Rightarrow> (case a of Tok t \<Rightarrow> Abort err (Tok t) | _ \<Rightarrow> BadArgument err)
      | ReadsString \<Rightarrow> (case a of Name s \<Rightarrow> Abort err (Name s) | _ \<Rightarrow> BadArgument err))"

definition STARTS_FACTOR :: "TokenType \<Rightarrow> bool" where
  "STARTS_FACTOR tt =
     (tt = TOK_ID \<or> tt = TOK_NUM \<or> tt = TOK_LPAR \<or> tt = TOK_NOT
      \<or> tt = TOK_TRUE \<or> tt = TOK_FALSE)"

definition STARTS_EXPR :: "TokenType \<Rightarrow> bool" where
  "STARTS_EXPR tt = (tt = TOK_MINUS \<or> STARTS_FACTOR tt)"

text \<open>\<^verbatim>\<open>tt >= TOK_MINUS && tt <= TOK_PLUS\<close>, a range of three token types.\<close>

definition IS_ADDOP :: "TokenType \<Rightarrow> bool" where
  "IS_ADDOP tt = (tt = TOK_MINUS \<or> tt = TOK_OR \<or> tt = TOK_PLUS)"

definition IS_MULOP :: "TokenType \<Rightarrow> bool" where
  "IS_MULOP tt =
     (tt = TOK_AND \<or> tt = TOK_DIV \<or> tt = TOK_MUL \<or> tt = TOK_MOD)"

definition IS_RELOP :: "TokenType \<Rightarrow> bool" where
  "IS_RELOP tt =
     (tt = TOK_EQ \<or> tt = TOK_GE \<or> tt = TOK_GT \<or> tt = TOK_LE
      \<or> tt = TOK_LT \<or> tt = TOK_NE)"

text \<open>\<^verbatim>\<open>get_token(&token)\<close> on the lookahead token.\<close>

definition next_token :: "parser \<Rightarrow> failure + parser" where
  "next_token p =
     (case get_token (token p) (scan p) of
        Inl e \<Rightarrow> Inl e
      | Inr (t, s) \<Rightarrow> Inr (p\<lparr>token := t, scan := s\<rparr>))"

definition expect :: "TokenType \<Rightarrow> parser \<Rightarrow> failure + parser" where
  "expect t p =
     (if toktype (token p) = t then next_token p else Inl (abort_compile ERR_EXPECT (Tok t)))"

definition expect_id :: "parser \<Rightarrow> failure + (string \<times> parser)" where
  "expect_id p =
     (if toktype (token p) = TOK_ID then
        (case next_token p of
           Inl e \<Rightarrow> Inl e
         | Inr p1 \<Rightarrow> Inr (lexeme (token p), p1))
      else Inl (abort_compile ERR_EXPECT (Tok TOK_ID)))"

definition inc_stack_depth :: "parser \<Rightarrow> parser" where
  "inc_stack_depth p =
     (let p1 = p\<lparr>stack_depth := stack_depth p + 1\<rparr>
      in if stack_depth p1 > max_stack_depth p1
         then p1\<lparr>max_stack_depth := stack_depth p1\<rparr> else p1)"

text \<open>\<^verbatim>\<open>check_types(found, expected, ...)\<close>: \<open>Some\<close> is the fatal error.\<close>

definition check_types :: "ValType \<Rightarrow> ValType \<Rightarrow> failure option" where
  "check_types found expected =
     (if found \<noteq> expected then Some (Incompatible found expected) else None)"

text \<open>\<^verbatim>\<open>idp->params[i]\<close>\<close>

definition param_at :: "IDprop \<Rightarrow> nat \<Rightarrow> ValType option" where
  "param_at idp i = (if i < length (params idp) then Some (params idp ! i) else None)"

text \<open>
  The type of the parse functions for expressions: \<^verbatim>\<open>void parse_expr(ValType *type)\<close> reads
  and writes \<^verbatim>\<open>*type\<close>.
\<close>

type_synonym parse_fn = "ValType \<Rightarrow> parser \<Rightarrow> failure + (ValType \<times> parser)"

subsection \<open>The arguments of a call in \<^verbatim>\<open>parse_factor\<close>\<close>

text \<open>
  The \<^verbatim>\<open>while\<close> loop over the second and later arguments. \<open>pe\<close> is \<^verbatim>\<open>parse_expr\<close>;
  the local \<^verbatim>\<open>nparams\<close> (here \<open>n_params\<close>) and \<^verbatim>\<open>current_param\<close> are of type \<^verbatim>\<open>int\<close>.
\<close>

function call_args_loop ::
  "parse_fn \<Rightarrow> string \<Rightarrow> IDprop \<Rightarrow> int \<Rightarrow> int \<Rightarrow> ValType \<Rightarrow> parser
     \<Rightarrow> failure + (int \<times> ValType \<times> parser)" where
  "call_args_loop pe key idp n_params current_param type_local p =
     (if toktype (token p) = TOK_COMMA \<and> current_param < n_params then
        if current_param + 1 = n_params then Inl (abort_compile ERR_TOO_MANY_ARGUMENTS (Name key))
        else
          (case next_token p of
             Inl e \<Rightarrow> Inl e
           | Inr p1 \<Rightarrow>
               (case pe type_local p1 of
                  Inl e \<Rightarrow> Inl e
                | Inr (type_local1, p2) \<Rightarrow>
                    (case param_at idp (nat (current_param + 1)) of
                       None \<Rightarrow> Inl OutOfBounds
                     | Some t \<Rightarrow>
                         (case check_types type_local1 t of
                            Some e \<Rightarrow> Inl e
                          | None \<Rightarrow>
                              call_args_loop pe key idp n_params (current_param + 1)
                                type_local1 p2))))
      else Inr (current_param, type_local, p))"
  by pat_completeness auto
termination
  by (relation "measure (\<lambda>(pe, key, idp, n_params, current_param, type_local, p).
        nat (n_params - current_param))") auto

declare call_args_loop.simps [simp del]

text \<open>
  The block \<^verbatim>\<open>if (STARTS_EXPR(token.type)) { ... }\<close> of \<^verbatim>\<open>parse_factor\<close>: the first argument,
  the loop, and the comparison of the count after it.
\<close>

definition call_args :: "parse_fn \<Rightarrow> string \<Rightarrow> IDprop \<Rightarrow> parser \<Rightarrow> failure + parser" where
  "call_args pe key idp p =
     (let n_params = sint (nparams idp) in
      if STARTS_EXPR (toktype (token p)) then
        (case pe 0 p of
           Inl e \<Rightarrow> Inl e
         | Inr (type_local, p1) \<Rightarrow>
             (case param_at idp 0 of
                None \<Rightarrow> Inl OutOfBounds
              | Some t \<Rightarrow>
                  (case check_types type_local t of
                     Some e \<Rightarrow> Inl e
                   | None \<Rightarrow>
                       (case call_args_loop pe key idp n_params 0 type_local p1 of
                          Inl e \<Rightarrow> Inl e
                        | Inr (current_param, type_local1, p2) \<Rightarrow>
                            if current_param \<noteq> n_params - 1 then
                              if current_param < n_params - 1
                              then Inl (abort_compile ERR_TOO_FEW_ARGUMENTS (Name key))
                              else Inl (abort_compile ERR_TOO_MANY_ARGUMENTS (Name key))
                            else Inr p2))))
      else Inr p)"

subsection \<open>The arguments of \<^verbatim>\<open>parse_do\<close>\<close>

text \<open>Here \<^verbatim>\<open>current_param\<close> and \<^verbatim>\<open>idp->nparams\<close> are of type \<^verbatim>\<open>unsigned int\<close>.\<close>

function do_args_loop ::
  "parse_fn \<Rightarrow> string \<Rightarrow> IDprop \<Rightarrow> 32 word \<Rightarrow> ValType \<Rightarrow> parser
     \<Rightarrow> failure + (32 word \<times> ValType \<times> parser)" where
  "do_args_loop pe key idp current_param ty p =
     (if toktype (token p) = TOK_COMMA then
        if current_param + 1 = nparams idp then Inl (abort_compile ERR_TOO_MANY_ARGUMENTS (Name key))
        else
          (case expect TOK_COMMA p of
             Inl e \<Rightarrow> Inl e
           | Inr p1 \<Rightarrow>
               (case pe ty p1 of
                  Inl e \<Rightarrow> Inl e
                | Inr (ty1, p2) \<Rightarrow>
                    (case param_at idp (unat (current_param + 1)) of
                       None \<Rightarrow> Inl OutOfBounds
                     | Some t \<Rightarrow>
                         (case check_types ty1 t of
                            Some e \<Rightarrow> Inl e
                          | None \<Rightarrow> do_args_loop pe key idp (current_param + 1) ty1 p2))))
      else Inr (current_param, ty, p))"
  by pat_completeness auto
termination
proof (relation "measure (\<lambda>(pe, key, idp, current_param, ty, p).
        unat (nparams idp - current_param - 1))", goal_cases)
  case 1
  show ?case by simp
next
  case (2 pe key idp current_param ty p x2 x2a x y x2b)
  define x where "x = nparams idp - current_param - 1"
  have "x \<noteq> 0"
  proof
    assume "x = 0"
    then have "nparams idp - current_param = 1" by (simp add: x_def)
    moreover have "nparams idp = (nparams idp - current_param) + current_param" by simp
    ultimately have "nparams idp = 1 + current_param" by simp
    with 2(2) show False by simp
  qed
  then have "unat (x - 1) < unat x"
    by (simp add: unat_minus_one unat_gt_0)
  moreover have "nparams idp - (current_param + 1) - 1 = x - 1"
    by (simp add: x_def)
  ultimately show ?case by (simp add: x_def)
qed

declare do_args_loop.simps [simp del]

text \<open>
  \<^verbatim>\<open>parse_do\<close> from the first \<^verbatim>\<open>parse_expr\<close> to the comparison of the count before
  \<^verbatim>\<open>expect(TOK_RPAR)\<close>.
\<close>

definition do_args :: "parse_fn \<Rightarrow> string \<Rightarrow> IDprop \<Rightarrow> parser \<Rightarrow> failure + parser" where
  "do_args pe key idp p =
     (case pe 0 p of
        Inl e \<Rightarrow> Inl e
      | Inr (ty, p1) \<Rightarrow>
          (case param_at idp 0 of
             None \<Rightarrow> Inl OutOfBounds
           | Some t \<Rightarrow>
               (case check_types ty t of
                  Some e \<Rightarrow> Inl e
                | None \<Rightarrow>
                    (case do_args_loop pe key idp 0 ty p1 of
                       Inl e \<Rightarrow> Inl e
                     | Inr (current_param, ty1, p2) \<Rightarrow>
                         if current_param < nparams idp - 1
                         then Inl (abort_compile ERR_TOO_FEW_ARGUMENTS (Name key))
                         else Inr p2))))"

subsection \<open>The expression parser\<close>

text \<open>
  \<^verbatim>\<open>parse_expr\<close>, \<^verbatim>\<open>parse_simple\<close>, \<^verbatim>\<open>parse_term\<close> and \<^verbatim>\<open>parse_factor\<close> call each other
  recursively. Each is first written as the body of the C function, with the functions it
  calls as parameters (\<open>pe\<close> for \<^verbatim>\<open>parse_expr\<close>, \<open>ps\<close> for \<^verbatim>\<open>parse_simple\<close>, \<open>pt\<close> for
  \<^verbatim>\<open>parse_term\<close>, \<open>pf\<close> for \<^verbatim>\<open>parse_factor\<close>, \<open>loop\<close> for the next round of a \<^verbatim>\<open>while\<close> loop).
  The argument \<open>ty\<close> is the value of \<^verbatim>\<open>*type\<close> at the call, and the result holds its value
  at the return. The loops carry the local variables \<^verbatim>\<open>type1\<close> and \<^verbatim>\<open>type2\<close> of their
  function.
\<close>

text \<open>\<^verbatim>\<open>parse_expr\<close>: the production expr = simple [ relop simple ].\<close>

definition parse_expr_body ::
  "parse_fn \<Rightarrow> parse_fn" where
  "parse_expr_body ps ty p =
     (case ps (if IS_ARRAY ty then ty else 0) p of
        Inl e \<Rightarrow> Inl e
      | Inr (type1, p1) \<Rightarrow>
          if \<not> IS_RELOP (toktype (token p1)) then Inr (type1, p1)
          else if toktype (token p1) = TOK_EQ \<or> toktype (token p1) = TOK_NE then
            (case next_token p1 of
               Inl e \<Rightarrow> Inl e
             | Inr p2 \<Rightarrow>
                 (case ps 0 p2 of
                    Inl e \<Rightarrow> Inl e
                  | Inr (type2, p3) \<Rightarrow>
                      (case check_types type2 type1 of
                         Some e \<Rightarrow> Inl e
                       | None \<Rightarrow> Inr (TYPE_BOOLEAN, p3))))
          else if toktype (token p1) = TOK_GE \<or> toktype (token p1) = TOK_GT
                  \<or> toktype (token p1) = TOK_LE \<or> toktype (token p1) = TOK_LT then
            if type1 \<noteq> TYPE_INTEGER \<and> (type1 XOR TYPE_CALLABLE) \<noteq> TYPE_INTEGER
            then Inl (Incompatible type1 TYPE_INTEGER)
            else
              (case next_token p1 of
                 Inl e \<Rightarrow> Inl e
               | Inr p2 \<Rightarrow>
                   (case ps 0 p2 of
                      Inl e \<Rightarrow> Inl e
                    | Inr (type2, p3) \<Rightarrow>
                        (case check_types type2 TYPE_INTEGER of
                           Some e \<Rightarrow> Inl e
                         | None \<Rightarrow> Inr (TYPE_BOOLEAN, p3))))
          else Inl (abort_compile ERR_UNREACHABLE NoArg))"

text \<open>The loop \<^verbatim>\<open>while (IS_ADDOP(token.type))\<close> of \<^verbatim>\<open>parse_simple\<close>.\<close>

definition parse_simple_loop_body ::
  "parse_fn \<Rightarrow> (ValType \<Rightarrow> ValType \<Rightarrow> parse_fn) \<Rightarrow> ValType \<Rightarrow> ValType \<Rightarrow> parse_fn" where
  "parse_simple_loop_body pt loop type1 type2 ty p =
     (if IS_ADDOP (toktype (token p)) then
        if IS_ARRAY ty
        then Inl (abort_compile ERR_ILLEGAL_ARRAY_OPERATION (Tok (toktype (token p))))
        else if toktype (token p) = TOK_PLUS \<or> toktype (token p) = TOK_MINUS then
          if IS_ARRAY type1
          then Inl (abort_compile ERR_ILLEGAL_ARRAY_OPERATION (Tok (toktype (token p))))
          else if type1 \<noteq> TYPE_INTEGER then Inl (Incompatible type1 TYPE_INTEGER)
          else
            (case next_token p of
               Inl e \<Rightarrow> Inl e
             | Inr p1 \<Rightarrow>
                 (case pt type2 p1 of
                    Inl e \<Rightarrow> Inl e
                  | Inr (type2a, p2) \<Rightarrow>
                      if IS_ARRAY type2a
                      then Inl (abort_compile ERR_ILLEGAL_ARRAY_OPERATION (Tok (toktype (token p))))
                      else if type2a \<noteq> TYPE_INTEGER
                      then Inl (Incompatible type2a TYPE_INTEGER)
                      else loop type1 type2a type1
                             (p2\<lparr>stack_depth := stack_depth p2 - 1\<rparr>)))
        else if toktype (token p) = TOK_OR then
          if type1 \<noteq> TYPE_BOOLEAN then Inl (Incompatible type1 TYPE_BOOLEAN)
          else
            (case next_token p of
               Inl e \<Rightarrow> Inl e
             | Inr p1 \<Rightarrow>
                 (case pt type2 p1 of
                    Inl e \<Rightarrow> Inl e
                  | Inr (type2a, p2) \<Rightarrow>
                      if type2a \<noteq> TYPE_BOOLEAN
                      then Inl (Incompatible type2a TYPE_BOOLEAN)
                      else loop type1 type2a type1 p2))
        else Inl (abort_compile ERR_UNREACHABLE NoArg)
      else Inr (ty, p))"

text \<open>\<^verbatim>\<open>parse_simple\<close>: the production simple = [ '-' ] term { addop term }.\<close>

definition parse_simple_body ::
  "parse_fn \<Rightarrow> (ValType \<Rightarrow> ValType \<Rightarrow> parse_fn) \<Rightarrow> parse_fn" where
  "parse_simple_body pt loop ty p =
     (case (if toktype (token p) = TOK_MINUS
            then (case expect TOK_MINUS p of
                    Inl e \<Rightarrow> Inl e
                  | Inr p1 \<Rightarrow> Inr (TYPE_INTEGER, p1))
            else Inr (ty, p)) of
        Inl e \<Rightarrow> Inl e
      | Inr (ty1, p1) \<Rightarrow>
          (case pt 0 p1 of
             Inl e \<Rightarrow> Inl e
           | Inr (type1, p2) \<Rightarrow>
               if ty1 = TYPE_INTEGER \<and> IS_ARRAY type1
               then Inl (abort_compile ERR_ILLEGAL_ARRAY_OPERATION (Tok TOK_MINUS))
               else if ty1 = TYPE_INTEGER \<and> type1 \<noteq> TYPE_INTEGER
               then Inl (Incompatible type1 TYPE_INTEGER)
               else loop type1 0
                      (if \<not> IS_ADDOP (toktype (token p2)) then type1 else ty1) p2))"

text \<open>The loop \<^verbatim>\<open>while (IS_MULOP(token.type))\<close> of \<^verbatim>\<open>parse_term\<close>.\<close>

definition parse_term_loop_body ::
  "parse_fn \<Rightarrow> (ValType \<Rightarrow> ValType \<Rightarrow> parse_fn) \<Rightarrow> ValType \<Rightarrow> ValType \<Rightarrow> parse_fn" where
  "parse_term_loop_body pf loop type1 type2 ty p =
     (if IS_MULOP (toktype (token p)) then
        if toktype (token p) = TOK_MUL \<or> toktype (token p) = TOK_DIV
           \<or> toktype (token p) = TOK_MOD then
          if IS_ARRAY type1
          then Inl (abort_compile ERR_ILLEGAL_ARRAY_OPERATION (Tok (toktype (token p))))
          else
            (case next_token p of
               Inl e \<Rightarrow> Inl e
             | Inr p1 \<Rightarrow>
                 if type1 \<noteq> TYPE_INTEGER then Inl (Incompatible type1 TYPE_INTEGER)
                 else
                   (case pf type2 p1 of
                      Inl e \<Rightarrow> Inl e
                    | Inr (type2a, p2) \<Rightarrow>
                        if IS_ARRAY type2a
                        then Inl (abort_compile ERR_ILLEGAL_ARRAY_OPERATION (Tok (toktype (token p))))
                        else if type2a \<noteq> TYPE_INTEGER
                        then Inl (Incompatible type2a TYPE_INTEGER)
                        else loop type1 type2a type1
                               (p2\<lparr>stack_depth := stack_depth p2 - 1\<rparr>)))
        else if toktype (token p) = TOK_AND then
          if type1 \<noteq> TYPE_BOOLEAN then Inl (Incompatible type1 TYPE_BOOLEAN)
          else
            (case next_token p of
               Inl e \<Rightarrow> Inl e
             | Inr p1 \<Rightarrow>
                 (case pf type2 p1 of
                    Inl e \<Rightarrow> Inl e
                  | Inr (type2a, p2) \<Rightarrow>
                      if type2a \<noteq> TYPE_BOOLEAN
                      then Inl (Incompatible type2a TYPE_BOOLEAN)
                      else loop type1 type2a type1 p2))
        else Inl (abort_compile ERR_UNREACHABLE NoArg)
      else Inr (ty, p))"

text \<open>
  \<^verbatim>\<open>parse_term\<close>: the production term = factor { mulop factor }. When the token does not
  start a factor, the call is \<^verbatim>\<open>abort_compile(ERR_MISSING_FACTOR)\<close>, without the token type
  that the message "expected factor, but found ..." is formatted with.
\<close>

definition parse_term_body ::
  "parse_fn \<Rightarrow> (ValType \<Rightarrow> ValType \<Rightarrow> parse_fn) \<Rightarrow> parse_fn" where
  "parse_term_body pf loop ty p =
     (if \<not> STARTS_FACTOR (toktype (token p)) then Inl (abort_compile ERR_MISSING_FACTOR NoArg)
      else
        (case pf 0 p of
           Inl e \<Rightarrow> Inl e
         | Inr (type1, p1) \<Rightarrow>
             loop type1 0
               (if \<not> IS_MULOP (toktype (token p1)) then type1 else ty) p1))"

text \<open>The loop \<^verbatim>\<open>while (token.type == TOK_COMMA)\<close> of the parenthesised case of \<^verbatim>\<open>parse_factor\<close>.\<close>

definition parse_factor_loop_body ::
  "parse_fn \<Rightarrow> parse_fn \<Rightarrow> parse_fn" where
  "parse_factor_loop_body pe loop type_local p =
     (if toktype (token p) = TOK_COMMA then
        (case expect TOK_COMMA p of
           Inl e \<Rightarrow> Inl e
         | Inr p1 \<Rightarrow>
             (case pe type_local p1 of
                Inl e \<Rightarrow> Inl e
              | Inr (type_local1, p2) \<Rightarrow> loop type_local1 p2))
      else Inr (type_local, p))"

text \<open>\<^verbatim>\<open>parse_factor\<close>: the production factor = id [ '[' simple ']' | '(' expr { ',' expr } ')' ] | num | '(' expr ')' | 'not' factor | 'true' | 'false'.\<close>

definition parse_factor_body ::
  "parse_fn \<Rightarrow> parse_fn \<Rightarrow> parse_fn \<Rightarrow> parse_fn \<Rightarrow> parse_fn" where
  "parse_factor_body pe ps pf loop ty p =
     (if toktype (token p) = TOK_ID then
        (case expect_id p of
           Inl e \<Rightarrow> Inl e
         | Inr (key, p1) \<Rightarrow>
             (case find_name key (symbols p1) of
                Inl e \<Rightarrow> Inl e
              | Inr (found, None) \<Rightarrow>
                  if found then Inl NullTable else Inl (abort_compile ERR_UNKNOWN_IDENTIFIER (Name key))
              | Inr (found, Some idp) \<Rightarrow>
                  if \<not> found then Inl (abort_compile ERR_UNKNOWN_IDENTIFIER (Name key))
                  else if toktype (token p1) \<noteq> TOK_LBRACK \<and> toktype (token p1) \<noteq> TOK_LPAR then
                    if \<not> IS_VARIABLE (type idp) then Inl (abort_compile ERR_NOT_A_VARIABLE (Name key))
                    else Inr (type idp, p1)
                  else if toktype (token p1) = TOK_LBRACK then
                    (case expect TOK_LBRACK p1 of
                       Inl e \<Rightarrow> Inl e
                     | Inr p2 \<Rightarrow>
                         (case ps 0 p2 of
                            Inl e \<Rightarrow> Inl e
                          | Inr (type_local, p3) \<Rightarrow>
                              if type_local \<noteq> TYPE_INTEGER
                              then Inl (Incompatible type_local TYPE_INTEGER)
                              else if \<not> IS_ARRAY_TYPE (type idp)
                              then Inl (abort_compile ERR_NOT_AN_ARRAY (Name key))
                              else
                                (case expect TOK_RBRACK p3 of
                                   Inl e \<Rightarrow> Inl e
                                 | Inr p4 \<Rightarrow> Inr (type idp XOR TYPE_ARRAY, p4))))
                  else
                    (case expect TOK_LPAR p1 of
                       Inl e \<Rightarrow> Inl e
                     | Inr p2 \<Rightarrow>
                         if \<not> IS_FUNCTION (type idp) \<and> \<not> IS_PROCEDURE (type idp)
                         then Inl (abort_compile ERR_NOT_A_FUNCTION (Name key))
                         else if is_assign p2 \<and> IS_PROCEDURE (type idp)
                         then Inl (abort_compile ERR_NOT_A_FUNCTION (Name key))
                         else
                           (case call_args pe key idp p2 of
                              Inl e \<Rightarrow> Inl e
                            | Inr p3 \<Rightarrow>
                                (case expect TOK_RPAR p3 of
                                   Inl e \<Rightarrow> Inl e
                                 | Inr p4 \<Rightarrow> Inr (type idp, p4))))))
      else if toktype (token p) = TOK_LPAR then
        (case expect TOK_LPAR p of
           Inl e \<Rightarrow> Inl e
         | Inr p1 \<Rightarrow>
             (case pe 0 p1 of
                Inl e \<Rightarrow> Inl e
              | Inr (type_local, p2) \<Rightarrow>
                  (case loop type_local p2 of
                     Inl e \<Rightarrow> Inl e
                   | Inr (type_local1, p3) \<Rightarrow>
                       (case expect TOK_RPAR p3 of
                          Inl e \<Rightarrow> Inl e
                        | Inr p4 \<Rightarrow>
                            Inr (if toktype (token p2) \<noteq> TOK_COMMA then type_local else ty,
                                 p4)))))
      else if toktype (token p) = TOK_NUM then
        (case expect TOK_NUM (inc_stack_depth p) of
           Inl e \<Rightarrow> Inl e
         | Inr p1 \<Rightarrow> Inr (TYPE_INTEGER, p1))
      else if toktype (token p) = TOK_NOT then
        (case expect TOK_NOT p of
           Inl e \<Rightarrow> Inl e
         | Inr p1 \<Rightarrow>
             (case pf 0 p1 of
                Inl e \<Rightarrow> Inl e
              | Inr (type_local, p2) \<Rightarrow>
                  if type_local \<noteq> TYPE_BOOLEAN
                  then Inl (Incompatible type_local TYPE_BOOLEAN)
                  else Inr (type_local, p2)))
      else if toktype (token p) = TOK_TRUE then
        (case expect TOK_TRUE p of
           Inl e \<Rightarrow> Inl e
         | Inr p1 \<Rightarrow> Inr (TYPE_BOOLEAN, inc_stack_depth p1))
      else if toktype (token p) = TOK_FALSE then
        (case expect TOK_FALSE p of
           Inl e \<Rightarrow> Inl e
         | Inr p1 \<Rightarrow> Inr (TYPE_BOOLEAN, inc_stack_depth p1))
      else Inl (abort_compile ERR_MISSING_FACTOR (Tok (toktype (token p)))))"

text \<open>
  The recursion is tied by a bound on the depth of the calls: \<open>parsers n\<close> holds the
  seven functions for depth \<open>n\<close>, each calling the functions for depth \<open>n - 1\<close>.
\<close>

record parse_fns =
  p_expr :: parse_fn
  p_simple :: parse_fn
  p_simple_loop :: "ValType \<Rightarrow> ValType \<Rightarrow> parse_fn"
  p_term :: parse_fn
  p_term_loop :: "ValType \<Rightarrow> ValType \<Rightarrow> parse_fn"
  p_factor :: parse_fn
  p_factor_loop :: parse_fn

primrec parsers :: "nat \<Rightarrow> parse_fns" where
  "parsers 0 =
     \<lparr>p_expr = (\<lambda>ty p. Inl OutOfFuel),
      p_simple = (\<lambda>ty p. Inl OutOfFuel),
      p_simple_loop = (\<lambda>type1 type2 ty p. Inl OutOfFuel),
      p_term = (\<lambda>ty p. Inl OutOfFuel),
      p_term_loop = (\<lambda>type1 type2 ty p. Inl OutOfFuel),
      p_factor = (\<lambda>ty p. Inl OutOfFuel),
      p_factor_loop = (\<lambda>ty p. Inl OutOfFuel)\<rparr>"
| "parsers (Suc n) =
     (let r = parsers n
      in \<lparr>p_expr = parse_expr_body (p_simple r),
          p_simple = parse_simple_body (p_term r) (p_simple_loop r),
          p_simple_loop = parse_simple_loop_body (p_term r) (p_simple_loop r),
          p_term = parse_term_body (p_factor r) (p_term_loop r),
          p_term_loop = parse_term_loop_body (p_factor r) (p_term_loop r),
          p_factor = parse_factor_body (p_expr r) (p_simple r) (p_factor r) (p_factor_loop r),
          p_factor_loop = parse_factor_loop_body (p_expr r) (p_factor_loop r)\<rparr>)"

definition parse_expr :: "nat \<Rightarrow> parse_fn" where
  "parse_expr n = p_expr (parsers n)"

definition parse_simple :: "nat \<Rightarrow> parse_fn" where
  "parse_simple n = p_simple (parsers n)"

definition parse_simple_loop :: "nat \<Rightarrow> ValType \<Rightarrow> ValType \<Rightarrow> parse_fn" where
  "parse_simple_loop n = p_simple_loop (parsers n)"

definition parse_term :: "nat \<Rightarrow> parse_fn" where
  "parse_term n = p_term (parsers n)"

definition parse_term_loop :: "nat \<Rightarrow> ValType \<Rightarrow> ValType \<Rightarrow> parse_fn" where
  "parse_term_loop n = p_term_loop (parsers n)"

definition parse_factor :: "nat \<Rightarrow> parse_fn" where
  "parse_factor n = p_factor (parsers n)"

definition parse_factor_loop :: "nat \<Rightarrow> parse_fn" where
  "parse_factor_loop n = p_factor_loop (parsers n)"

text \<open>\<^verbatim>\<open>parse_do\<close>: the production do = 'do' id '(' expr { ',' expr } ')'.\<close>

definition parse_do :: "nat \<Rightarrow> parser \<Rightarrow> failure + parser" where
  "parse_do n p =
     (case expect TOK_DO p of
        Inl e \<Rightarrow> Inl e
      | Inr p1 \<Rightarrow>
          (case expect_id p1 of
             Inl e \<Rightarrow> Inl e
           | Inr (key, p2) \<Rightarrow>
               (case find_name key (symbols p2) of
                  Inl e \<Rightarrow> Inl e
                | Inr (found, None) \<Rightarrow>
                    if found then Inl NullTable else Inl (abort_compile ERR_UNKNOWN_IDENTIFIER (Name key))
                | Inr (found, Some idp) \<Rightarrow>
                    if \<not> found then Inl (abort_compile ERR_UNKNOWN_IDENTIFIER (Name key))
                    else if \<not> IS_PROCEDURE (type idp)
                    then Inl (abort_compile ERR_NOT_A_PROCEDURE (Name key))
                    else
                      (case expect TOK_LPAR p2 of
                         Inl e \<Rightarrow> Inl e
                       | Inr p3 \<Rightarrow>
                           (case do_args (parse_expr n) key idp p3 of
                              Inl e \<Rightarrow> Inl e
                            | Inr p4 \<Rightarrow> expect TOK_RPAR p4)))))"


text \<open>
  The state in which \<^verbatim>\<open>main\<close> calls the parser, for the source text \<open>in_file\<close> and a symbol
  table: \<^verbatim>\<open>init_scanner(src_file)\<close>, then \<^verbatim>\<open>get_token(&token)\<close> on the zero-initialised token.
\<close>

definition start :: "string \<Rightarrow> symtab \<Rightarrow> failure + parser" where
  "start in_file st =
     (case get_token tok0 (init_scanner in_file) of
        Inl e \<Rightarrow> Inl e
      | Inr (t, s) \<Rightarrow>
          Inr \<lparr>scan = s, token = t, symbols = st, is_assign = False, is_if_or_while = False,
               stack_depth = 0, max_stack_depth = 0\<rparr>)"

text \<open>
  The symbol table in the body of \<^verbatim>\<open>main\<close> of a program that has defined the functions
  \<open>f\<close> (one integer parameter) and \<open>g\<close> (two), both returning an integer, and the procedures
  \<open>p\<close> (one) and \<open>q\<close> (two), and has declared the integer variable \<open>x\<close>.
\<close>

definition main_example :: symtab where
  "main_example =
     \<lparr>heap = [[(''f'', idprop (TYPE_CALLABLE OR TYPE_INTEGER) 0 1 [TYPE_INTEGER]),
               (''g'', idprop (TYPE_CALLABLE OR TYPE_INTEGER) 0 2 [TYPE_INTEGER, TYPE_INTEGER]),
               (''p'', idprop TYPE_CALLABLE 0 1 [TYPE_INTEGER]),
               (''q'', idprop TYPE_CALLABLE 0 2 [TYPE_INTEGER, TYPE_INTEGER]),
               (''main'', idprop TYPE_CALLABLE 0 0 []),
               (''x'', idprop TYPE_INTEGER 0 0 [])]],
      table = Some 0, saved_table = Some 0, curr_offset = 1\<rparr>"

subsection \<open>The first identifier of \<^verbatim>\<open>parse_varseq\<close>\<close>

text \<open>
  \<^verbatim>\<open>parse_varseq\<close> (called by \<^verbatim>\<open>parse_body\<close> after \<^verbatim>\<open>expect(TOK_VARS)\<close>) moves \<^verbatim>\<open>position.col\<close>
  back before it reads its first identifier:
  \<^verbatim>\<open>unsigned int lex_len = strlen(token.lexeme); ... position.col -= lex_len - 1; expect_id(&key);\<close>
  The statements before these handle the list \<^verbatim>\<open>vars\<close> only. \<open>parse_varseq_before_id\<close> is
  the state in which \<^verbatim>\<open>expect_id\<close> is called, for a token that is an identifier. The
  subtraction is made in \<^verbatim>\<open>unsigned int\<close> and its result converted to \<^verbatim>\<open>int\<close>, which is the
  difference of the integers wrapped to 32 bits.
\<close>

definition parse_varseq_before_id :: "parser \<Rightarrow> parser" where
  "parse_varseq_before_id p =
     (let lex_len = int (length (lexeme (token p)))
      in p\<lparr>scan := set_col (int32 (col (position (scan p)) - (lex_len - 1))) (scan p)\<rparr>)"

subsection \<open>Notions used in the statements about calls\<close>



section \<open>Properties of the symbol table\<close>

lemma ht_search_map_of: "ht_search t k = map_of t k"
  by (induction t) auto

lemma ht_search_append:
  "ht_search (t @ u) k = (case ht_search t k of Some p \<Rightarrow> Some p | None \<Rightarrow> ht_search u k)"
  by (induction t) auto

lemma find_name_cur:
  "cur st = Some t \<Longrightarrow> ht_search t name = Some p \<Longrightarrow> find_name name st = Inr (True, Some p)"
  by (simp add: find_name_def cur_def)

lemma find_name_False_cur:
  "find_name name st = Inr (False, w) \<Longrightarrow> \<exists>t. cur st = Some t \<and> ht_search t name = None"
  by (auto simp: find_name_def cur_def split: option.splits if_splits)

lemma insert_name_new:
  assumes "find_name name st = Inr (False, w)"
    and "\<not> c_true (type prop AND TYPE_CALLABLE)"
    and "c_true (type prop AND TYPE_INTEGER) \<or> c_true (type prop AND TYPE_BOOLEAN)"
    and "name \<noteq> ''main''"
  shows "\<exists>a t. table st = Some a \<and> a < length (heap st) \<and> heap st ! a = t \<and>
           insert_name name prop st =
             Inr (True, st\<lparr>curr_offset := curr_offset st + 1,
                           heap := (heap st)[a := t @ [(name, prop\<lparr>offset := curr_offset st\<rparr>)]]\<rparr>)"
  using assms
  by (auto simp: insert_name_def find_name_def ht_at_def ht_insert_def Let_def
      split: option.splits if_splits)

lemma find_name_other:
  assumes "find_name y st = Inr (False, w)" and "y \<noteq> x"
    and "table st = Some a" and "a < length (heap st)"
  shows "\<exists>w'. find_name y (st\<lparr>curr_offset := c, heap := (heap st)[a := heap st ! a @ [(x, p)]]\<rparr>)
           = Inr (False, w')"
  using assms
  by (auto simp: find_name_def ht_at_def ht_search_append nth_list_update
      split: option.splits if_splits)


lemma insert_name_cur_grows:
  assumes "insert_name y prop st = Inr (b, st1)" and "cur st = Some t"
  shows "\<exists>u. cur st1 = Some (t @ u)"
  using assms
  by (auto simp: insert_name_def cur_def ht_at_def ht_insert_def Let_def
      split: sum.splits option.splits if_splits prod.splits ht_status.splits)

lemma insert_variables_cur_grows:
  "insert_variables vars st = Inr st' \<Longrightarrow> cur st = Some t \<Longrightarrow> \<exists>u. cur st' = Some (t @ u)"
proof (induction vars arbitrary: st t)
  case Nil
  then show ?case by simp
next
  case (Cons v vars)
  from Cons.prems(1) obtain b st1 where
    i: "insert_name (vid v) (idprop (vtype v) 0 0 []) st = Inr (b, st1)"
    and r: "insert_variables vars st1 = Inr st'"
    by (auto split: sum.splits)
  from insert_name_cur_grows [OF i Cons.prems(2)] obtain u where "cur st1 = Some (t @ u)" ..
  from Cons.IH [OF r this] show ?case by auto
qed

lemma IS_VARIABLE_bits:
  "IS_VARIABLE t \<Longrightarrow>
     \<not> c_true (t AND TYPE_CALLABLE) \<and> (c_true (t AND TYPE_INTEGER) \<or> c_true (t AND TYPE_BOOLEAN))"
  by (auto simp: IS_VARIABLE_def IS_CALLABLE_TYPE_def IS_INTEGER_TYPE_def IS_BOOLEAN_TYPE_def)

lemma unat_succ_offset: "unat (c :: 32 word) + 1 < 2 ^ 32 \<Longrightarrow> unat (c + 1) = unat c + 1"
  by (simp add: unat_word_ariths)


text \<open>
  Claim C8. The variables of one declaration group of a subroutine body, inserted by
  \<^verbatim>\<open>parse_body\<close> in declaration order, get the offsets \<open>c, c + 1, c + 2, ...\<close> where \<open>c\<close> is
  the value of the offset counter before the group, and the counter ends at \<open>c\<close> plus the
  number of variables: the offsets are pairwise distinct and strictly increasing. The
  names are new (\<^verbatim>\<open>find_name\<close> does not find them, as \<^verbatim>\<open>parse_varseq\<close> has checked), pairwise
  different, of a variable type, and the unsigned counter does not wrap around.
\<close>

theorem vars_offsets_sequential:
  assumes fresh: "\<forall>v \<in> set vars. \<exists>w. find_name (vid v) st = Inr (False, w)"
    and dist: "distinct (map vid vars)"
    and isvar: "\<forall>v \<in> set vars. vid v \<noteq> ''main'' \<and> IS_VARIABLE (vtype v)"
    and nowrap: "unat (curr_offset st) + length vars < 2 ^ 32"
  shows "\<exists>st'. insert_variables vars st = Inr st'
           \<and> unat (curr_offset st') = unat (curr_offset st) + length vars
           \<and> (\<forall>i < length vars. \<exists>p. find_name (vid (vars ! i)) st' = Inr (True, Some p)
                  \<and> type p = vtype (vars ! i)
                  \<and> unat (offset p) = unat (curr_offset st) + i)"
  using assms
proof (induction vars arbitrary: st)
  case Nil
  then show ?case by simp
next
  case (Cons v vars)
  let ?ip = "idprop (vtype v) 0 0 []"
  let ?c = "curr_offset st"
  from Cons.prems(1) obtain w where fw: "find_name (vid v) st = Inr (False, w)" by auto
  from Cons.prems(3) have tv: "\<not> c_true (type ?ip AND TYPE_CALLABLE)"
      "c_true (type ?ip AND TYPE_INTEGER) \<or> c_true (type ?ip AND TYPE_BOOLEAN)" "vid v \<noteq> ''main''"
    using IS_VARIABLE_bits [of "vtype v"] by (auto simp: idprop_def)
  from insert_name_new [OF fw tv] obtain a where
    a: "table st = Some a" "a < length (heap st)"
    and ins: "insert_name (vid v) ?ip st =
        Inr (True, st\<lparr>curr_offset := ?c + 1,
                      heap := (heap st)[a := heap st ! a @ [(vid v, ?ip\<lparr>offset := ?c\<rparr>)]]\<rparr>)"
    by auto
  define st1 where "st1 = st\<lparr>curr_offset := ?c + 1,
                      heap := (heap st)[a := heap st ! a @ [(vid v, ?ip\<lparr>offset := ?c\<rparr>)]]\<rparr>"
  have c1: "unat (curr_offset st1) = unat ?c + 1"
    using Cons.prems(4) by (simp add: st1_def unat_succ_offset)
  have fresh1: "\<forall>x \<in> set vars. \<exists>w. find_name (vid x) st1 = Inr (False, w)"
  proof
    fix x assume x: "x \<in> set vars"
    with Cons.prems(1) obtain w' where "find_name (vid x) st = Inr (False, w')" by auto
    moreover have "vid x \<noteq> vid v"
    proof -
      from x have "vid x \<in> vid ` set vars" by (rule imageI)
      moreover from Cons.prems(2) have "vid v \<notin> vid ` set vars" by simp
      ultimately show ?thesis by metis
    qed
    ultimately show "\<exists>w. find_name (vid x) st1 = Inr (False, w)"
      unfolding st1_def using a by (rule find_name_other)
  qed
  have "\<exists>st'. insert_variables vars st1 = Inr st'
           \<and> unat (curr_offset st') = unat (curr_offset st1) + length vars
           \<and> (\<forall>i < length vars. \<exists>p. find_name (vid (vars ! i)) st' = Inr (True, Some p)
                  \<and> type p = vtype (vars ! i)
                  \<and> unat (offset p) = unat (curr_offset st1) + i)"
    using fresh1 Cons.prems(2,3,4) c1 by (intro Cons.IH) auto
  then obtain st' where r: "insert_variables vars st1 = Inr st'"
    and cnt: "unat (curr_offset st') = unat (curr_offset st1) + length vars"
    and offs: "\<forall>i < length vars. \<exists>p. find_name (vid (vars ! i)) st' = Inr (True, Some p)
                  \<and> type p = vtype (vars ! i)
                  \<and> unat (offset p) = unat (curr_offset st1) + i"
    by blast
  have run: "insert_variables (v # vars) st = Inr st'"
    using ins r by (simp add: st1_def)
  have "cur st1 = Some (heap st ! a @ [(vid v, ?ip\<lparr>offset := ?c\<rparr>)])"
    using a by (simp add: cur_def ht_at_def st1_def)
  from insert_variables_cur_grows [OF r this] obtain u where
    "cur st' = Some ((heap st ! a @ [(vid v, ?ip\<lparr>offset := ?c\<rparr>)]) @ u)" ..
  moreover from fw a have "ht_search (heap st ! a) (vid v) = None"
    by (auto simp: find_name_def ht_at_def split: option.splits if_splits)
  ultimately have first: "find_name (vid v) st' = Inr (True, Some (?ip\<lparr>offset := ?c\<rparr>))"
    by (intro find_name_cur) (auto simp: ht_search_append)
  have "\<exists>p. find_name (vid ((v # vars) ! i)) st' = Inr (True, Some p)
           \<and> type p = vtype ((v # vars) ! i)
           \<and> unat (offset p) = unat ?c + i" if "i < length (v # vars)" for i
  proof (cases i)
    case 0
    with first show ?thesis by (simp add: idprop_def)
  next
    case (Suc j)
    with that have "j < length vars" by simp
    with offs c1 Suc show ?thesis by auto
  qed
  with run cnt c1 show ?case by auto
qed


theorem vars_offsets_sequential_witness:
  "\<exists>st' p q.
     insert_variables [\<lparr>vid = ''x'', vtype = TYPE_INTEGER\<rparr>,
                       \<lparr>vid = ''y'', vtype = TYPE_BOOLEAN OR TYPE_ARRAY\<rparr>] init_symbol_table = Inr st'
     \<and> unat (curr_offset st') = 2
     \<and> find_name ''x'' st' = Inr (True, Some p) \<and> unat (offset p) = 0
     \<and> find_name ''y'' st' = Inr (True, Some q) \<and> unat (offset q) = 1"
proof -
  let ?vars = "[\<lparr>vid = ''x'', vtype = TYPE_INTEGER\<rparr>,
                \<lparr>vid = ''y'', vtype = TYPE_BOOLEAN OR TYPE_ARRAY\<rparr>]"
  have h1: "\<forall>v \<in> set ?vars. \<exists>w. find_name (vid v) init_symbol_table = Inr (False, w)"
    by (simp add: find_name_def init_symbol_table_def ht_init_def ht_at_def)
  have h2: "distinct (map vid ?vars)" by simp
  have h3: "\<forall>v \<in> set ?vars. vid v \<noteq> ''main'' \<and> IS_VARIABLE (vtype v)"
    by (simp add: IS_VARIABLE_def IS_CALLABLE_TYPE_def IS_BOOLEAN_TYPE_def IS_INTEGER_TYPE_def
        TYPE_INTEGER_def TYPE_BOOLEAN_def TYPE_ARRAY_def TYPE_CALLABLE_def c_true_def)
  have h4: "unat (curr_offset init_symbol_table) + length ?vars < 2 ^ 32"
    by (simp add: init_symbol_table_def ht_init_def)
  from vars_offsets_sequential [OF h1 h2 h3 h4] obtain st' where
    r: "insert_variables ?vars init_symbol_table = Inr st'"
    and c: "unat (curr_offset st') = unat (curr_offset init_symbol_table) + length ?vars"
    and o: "\<forall>i < length ?vars. \<exists>p. find_name (vid (?vars ! i)) st' = Inr (True, Some p)
                  \<and> type p = vtype (?vars ! i)
                  \<and> unat (offset p) = unat (curr_offset init_symbol_table) + i"
    by blast
  have z: "unat (curr_offset init_symbol_table) = 0"
    by (simp add: init_symbol_table_def ht_init_def)
  from o [rule_format, of 0] z obtain p where
    "find_name ''x'' st' = Inr (True, Some p)" "unat (offset p) = 0" by auto
  moreover from o [rule_format, of 1] z obtain q where
    "find_name ''y'' st' = Inr (True, Some q)" "unat (offset q) = 1" by auto
  ultimately show ?thesis using r c z by auto
qed


text \<open>
  Claim C6. \<^verbatim>\<open>find_name\<close> searches the current table first and returns what it finds there.
  If the name is absent there and there is no saved table, it is not found. If the name is
  absent there and there is a saved table, a match in the saved table is found exactly
  when its type is callable; every other outcome is "not found".
\<close>

theorem find_name_scope_rule:
  assumes "ht_at st (table st) = Some t"
  shows "(map_of t name = Some p \<longrightarrow> find_name name st = Inr (True, Some p))
     \<and> (map_of t name = None \<and> saved_table st = None \<longrightarrow> find_name name st = Inr (False, None))
     \<and> (map_of t name = None \<and> ht_at st (saved_table st) = Some sv \<longrightarrow>
          find_name name st =
            Inr (case map_of sv name of
                   None \<Rightarrow> (False, None)
                 | Some q \<Rightarrow> (IS_CALLABLE_TYPE (type q), Some q)))"
  using assms
  by (auto simp: find_name_def ht_search_map_of ht_at_def split: option.splits)

theorem find_name_scope_rule_witness:
  "find_name ''y'' scope_example = Inr (True, Some (idprop TYPE_BOOLEAN 0 0 []))
   \<and> find_name ''f'' scope_example
       = Inr (True, Some (idprop (TYPE_CALLABLE OR TYPE_INTEGER) 0 1 [TYPE_INTEGER]))
   \<and> find_name ''g'' scope_example = Inr (False, Some (idprop TYPE_INTEGER 0 0 []))
   \<and> find_name ''h'' scope_example = Inr (False, None)
   \<and> find_name ''h'' init_symbol_table = Inr (False, None)"
proof -
  have t: "ht_at scope_example (table scope_example) = Some [(''y'', idprop TYPE_BOOLEAN 0 0 [])]"
    by (simp add: scope_example_def ht_at_def)
  have s: "ht_at scope_example (saved_table scope_example)
      = Some [(''f'', idprop (TYPE_CALLABLE OR TYPE_INTEGER) 0 1 [TYPE_INTEGER]),
              (''g'', idprop TYPE_INTEGER 0 0 [])]"
    by (simp add: scope_example_def ht_at_def)
  have i: "ht_at init_symbol_table (table init_symbol_table) = Some []"
    by (simp add: init_symbol_table_def ht_init_def ht_at_def)
  have c: "IS_CALLABLE_TYPE (TYPE_CALLABLE OR TYPE_INTEGER)" "\<not> IS_CALLABLE_TYPE TYPE_INTEGER"
    by (simp_all add: IS_CALLABLE_TYPE_def TYPE_CALLABLE_def TYPE_INTEGER_def c_true_def)
  show ?thesis
    using find_name_scope_rule [OF t, of "''y''" "idprop TYPE_BOOLEAN 0 0 []"]
      find_name_scope_rule [OF t, of "''f''" _ "the (ht_at scope_example (saved_table scope_example))"]
      find_name_scope_rule [OF t, of "''g''" _ "the (ht_at scope_example (saved_table scope_example))"]
      find_name_scope_rule [OF t, of "''h''" _ "the (ht_at scope_example (saved_table scope_example))"]
      find_name_scope_rule [OF i, of "''h''"]
      s c
    by (simp add: idprop_def init_symbol_table_def ht_init_def)
qed


text \<open>
  Claim C9. \<^verbatim>\<open>close_subroutine\<close> makes the saved (global) table the current one, with the
  contents it had, and leaves the offset counter as it was: \<^verbatim>\<open>get_variables_width\<close> returns
  the same value after closing as before. \<^verbatim>\<open>reset_offset\<close> sets the counter to zero, and so
  does a successful \<^verbatim>\<open>open_subroutine\<close> of a callable.
\<close>

theorem close_subroutine_keeps_offset:
  "table (close_subroutine st) = saved_table st
   \<and> saved_table (close_subroutine st) = saved_table st
   \<and> (ht_at st (saved_table st) = Some sv \<longrightarrow>
        ht_at (close_subroutine st) (table (close_subroutine st)) = Some sv)
   \<and> curr_offset (close_subroutine st) = curr_offset st
   \<and> get_variables_width (close_subroutine st) = get_variables_width st
   \<and> get_variables_width (reset_offset st) = 0
   \<and> (IS_CALLABLE_TYPE (type prop) \<and> open_subroutine name prop st = Inr (True, st')
        \<longrightarrow> get_variables_width st' = 0)"
proof (intro conjI impI)
  show "table (close_subroutine st) = saved_table st"
    by (simp add: close_subroutine_def ht_init_def)
  show "saved_table (close_subroutine st) = saved_table st"
    by (simp add: close_subroutine_def ht_init_def)
  show "ht_at (close_subroutine st) (table (close_subroutine st)) = Some sv"
    if "ht_at st (saved_table st) = Some sv"
    using that
    by (auto simp: close_subroutine_def ht_init_def ht_at_def nth_append
        split: option.splits if_splits)
  show "curr_offset (close_subroutine st) = curr_offset st"
    by (simp add: close_subroutine_def ht_init_def)
  then show "get_variables_width (close_subroutine st) = get_variables_width st"
    by (simp add: get_variables_width_def)
  show "get_variables_width (reset_offset st) = 0"
    by (simp add: get_variables_width_def reset_offset_def)
  show "get_variables_width st' = 0"
    if "IS_CALLABLE_TYPE (type prop) \<and> open_subroutine name prop st = Inr (True, st')"
    using that
    by (auto simp: open_subroutine_def insert_name_def ht_init_def Let_def IS_CALLABLE_TYPE_def c_true_def
        ht_insert_def get_variables_width_def
        split: sum.splits prod.splits if_splits option.splits ht_status.splits)
qed

theorem close_subroutine_keeps_offset_witness:
  "table (close_subroutine body_example) = Some 0
   \<and> ht_at (close_subroutine body_example) (table (close_subroutine body_example))
       = Some [(''f'', idprop TYPE_CALLABLE 0 1 [TYPE_INTEGER])]
   \<and> get_variables_width (close_subroutine body_example) = 2
   \<and> get_variables_width (reset_offset (close_subroutine body_example)) = 0
   \<and> (\<exists>st'. open_subroutine ''g'' (idprop TYPE_CALLABLE 0 1 [TYPE_INTEGER])
                (close_subroutine body_example) = Inr (True, st')
          \<and> get_variables_width st' = 0)"
proof -
  have s: "ht_at body_example (saved_table body_example)
      = Some [(''f'', idprop TYPE_CALLABLE 0 1 [TYPE_INTEGER])]"
    by (simp add: body_example_def ht_at_def)
  have w: "get_variables_width body_example = 2"
    by (simp add: body_example_def get_variables_width_def)
  have c: "IS_CALLABLE_TYPE (type (idprop TYPE_CALLABLE 0 1 [TYPE_INTEGER]))"
    by (simp add: IS_CALLABLE_TYPE_def TYPE_CALLABLE_def idprop_def c_true_def)
  obtain st' where o: "open_subroutine ''g'' (idprop TYPE_CALLABLE 0 1 [TYPE_INTEGER])
                (close_subroutine body_example) = Inr (True, st')"
    by (simp add: open_subroutine_def insert_name_def find_name_def close_subroutine_def
        body_example_def ht_init_def ht_at_def ht_insert_def idprop_def Let_def
        TYPE_CALLABLE_def TYPE_INTEGER_def TYPE_BOOLEAN_def IS_CALLABLE_TYPE_def c_true_def)
  note k = close_subroutine_keeps_offset [of body_example
      "[(''f'', idprop TYPE_CALLABLE 0 1 [TYPE_INTEGER])]"
      "idprop TYPE_CALLABLE 0 1 [TYPE_INTEGER]" "''g''" st']
  note k2 = close_subroutine_keeps_offset [of "close_subroutine body_example" "[]"
      "idprop TYPE_CALLABLE 0 1 [TYPE_INTEGER]" "''g''" st']
  have "table (close_subroutine body_example) = Some 0"
    using k by (simp add: body_example_def)
  moreover have "ht_at (close_subroutine body_example) (table (close_subroutine body_example))
       = Some [(''f'', idprop TYPE_CALLABLE 0 1 [TYPE_INTEGER])]"
    using k s by blast
  moreover have "get_variables_width (close_subroutine body_example) = 2"
    using k w by simp
  moreover have "get_variables_width (reset_offset (close_subroutine body_example)) = 0"
    using k2 by blast
  moreover have "get_variables_width st' = 0"
    using k2 c o by blast
  ultimately show ?thesis using o by blast
qed


text \<open>
  Claim C1. Inserting a name that the current table already holds does not return
  \<^verbatim>\<open>FALSE\<close>: \<^verbatim>\<open>insert_name\<close> finds the name with \<^verbatim>\<open>find_name\<close> and calls \<^verbatim>\<open>abort_compile\<close> with
  \<^verbatim>\<open>ERR_MULTIPLE_DEFINITION\<close>. The same happens in \<^verbatim>\<open>open_subroutine\<close> for a subroutine name
  that the global table already holds.
\<close>

theorem insert_name_duplicate_aborts:
  "(case insert_name ''x'' (idprop TYPE_INTEGER 0 0 []) init_symbol_table of
      Inl e \<Rightarrow> False
    | Inr (ok, st1) \<Rightarrow>
        ok \<and> insert_name ''x'' (idprop TYPE_INTEGER 0 0 []) st1
               = Inl (Abort ERR_MULTIPLE_DEFINITION (Name ''x'')))
   \<and> (case open_subroutine ''f'' (idprop (TYPE_CALLABLE OR TYPE_INTEGER) 0 0 []) init_symbol_table of
        Inl e \<Rightarrow> False
      | Inr (ok, st1) \<Rightarrow>
          ok \<and> open_subroutine ''f'' (idprop (TYPE_CALLABLE OR TYPE_INTEGER) 0 0 [])
                 (close_subroutine st1)
               = Inl (Abort ERR_MULTIPLE_DEFINITION (Name ''f'')))"
  by (simp add: open_subroutine_def insert_name_def find_name_def close_subroutine_def
        init_symbol_table_def ht_init_def ht_at_def ht_insert_def idprop_def Let_def
        TYPE_CALLABLE_def TYPE_INTEGER_def TYPE_BOOLEAN_def IS_CALLABLE_TYPE_def c_true_def)

section \<open>Properties of the scanner\<close>

subsection \<open>End of file\<close>

lemma in_sync_next_char: "in_sync s \<Longrightarrow> in_sync (next_char s)"
  by (auto simp: in_sync_def next_char_def Let_def split: list.splits)

lemma in_sync_init_scanner: "in_sync (init_scanner f)"
  by (auto simp: in_sync_def init_scanner_def next_char_def Let_def split: list.splits)

lemma in_sync_process_word_loop:
  "process_word_loop lexm s = Inr (l, s') \<Longrightarrow> in_sync s \<Longrightarrow> in_sync s'"
proof (induction lexm s rule: process_word_loop.induct)
  case (1 lexm s)
  from "1.prems" show ?case
    by (subst (asm) process_word_loop.simps)
       (auto split: option.splits if_splits intro: "1.IH" in_sync_next_char)
qed

lemma in_sync_process_word:
  "process_word tk s = Inr (t, s') \<Longrightarrow> in_sync s'"
  by (auto simp: process_word_def Let_def in_sync_def
      split: sum.splits if_splits option.splits
      dest!: in_sync_process_word_loop [unfolded in_sync_def])

lemma in_sync_process_number_loop:
  "process_number_loop tk s = Inr (t, s') \<Longrightarrow> in_sync s \<Longrightarrow> in_sync s'"
proof (induction tk s rule: process_number_loop.induct)
  case (1 tk s)
  from "1.prems" show ?case
    by (subst (asm) process_number_loop.simps)
       (auto split: option.splits if_splits intro: "1.IH" in_sync_next_char)
qed

lemma in_sync_process_number:
  "process_number tk s = Inr (t, s') \<Longrightarrow> in_sync s \<Longrightarrow> in_sync s'"
  unfolding process_number_def
  by (erule in_sync_process_number_loop) (rule in_sync_next_char)

lemma in_sync_process_string_loop:
  "process_string_loop cp s = Inr (cp', s') \<Longrightarrow> in_sync s \<Longrightarrow> in_sync s'"
proof (induction cp s rule: process_string_loop.induct)
  case (1 cp s)
  note eq = "1.prems"(1) [unfolded process_string_loop.simps [of cp s]]
  show ?case
  proof (cases "ch s")
    case None
    with eq "1.prems"(2) show ?thesis by simp
  next
    case (Some c)
    show ?thesis
    proof (cases "c = CHR 0x22")
      case True
      with eq Some "1.prems"(2) show ?thesis by simp
    next
      case q: False
      show ?thesis
      proof (cases "c = CHR 0x09")
        case True
        with eq Some q show ?thesis by simp
      next
        case t: False
        show ?thesis
        proof (cases "1 \<le> length cp \<and> c = CHR 0x5C")
          case True
          with eq Some q t obtain e where e: "ch (next_char s) = Some e"
            and ok: "\<not> (e \<noteq> CHR ''n'' \<and> e \<noteq> CHR ''t'' \<and> e \<noteq> CHR 0x22 \<and> e \<noteq> CHR 0x5C)"
            and r: "process_string_loop (cp @ [c, e]) (next_char (next_char s)) = Inr (cp', s')"
            by (cases "ch (next_char s)") (simp_all split: if_splits)
          from "1.prems"(2) have "in_sync (next_char (next_char s))"
            by (intro in_sync_next_char)
          from "1.IH"(1) [OF Some q t True e ok r this] show ?thesis .
        next
          case False
          with eq Some q t have r: "process_string_loop (cp @ [c]) (next_char s) = Inr (cp', s')"
            by (auto split: if_splits)
          from "1.prems"(2) have "in_sync (next_char s)" by (rule in_sync_next_char)
          from "1.IH"(2) [OF Some q t False r this] show ?thesis .
        qed
      qed
    qed
  qed
qed

lemma in_sync_process_string:
  "process_string tk s = Inr (t, s') \<Longrightarrow> in_sync s \<Longrightarrow> in_sync s'"
  by (auto simp: process_string_def Let_def split: sum.splits if_splits
      dest: in_sync_process_string_loop)

lemma in_sync_punctuation:
  "punctuation c s = Some (t, s') \<Longrightarrow> in_sync s \<Longrightarrow> in_sync s'"
  by (auto simp: punctuation_def Let_def split: if_splits intro: in_sync_next_char)

lemma in_sync_get_token:
  "get_token tk s = Inr (t, s') \<Longrightarrow> in_sync s'"
proof (induction tk s rule: get_token.induct)
  case (1 tk s)
  define s2 where "s2 = (skip_space s)\<lparr>position := (position (skip_space s))\<lparr>col := column_number (skip_space s)\<rparr>\<rparr>"
  have s2: "in_sync s2" by (simp add: in_sync_def s2_def)
  note gt = "1.prems" [unfolded get_token.simps [of tk s] Let_def, folded s2_def]
  show ?case
  proof (cases "ch s2")
    case None
    with gt s2 show ?thesis by auto
  next
    case (Some c)
    consider (word) "isalpha c \<or> c = CHR ''_''"
      | (num) "\<not> (isalpha c \<or> c = CHR ''_'')" "isdigit c"
      | (str) "\<not> (isalpha c \<or> c = CHR ''_'')" "\<not> isdigit c" "c = CHR 0x22"
      | (com) "\<not> (isalpha c \<or> c = CHR ''_'')" "\<not> isdigit c" "c \<noteq> CHR 0x22" "c = CHR ''{''"
      | (pun) "\<not> (isalpha c \<or> c = CHR ''_'')" "\<not> isdigit c" "c \<noteq> CHR 0x22" "c \<noteq> CHR ''{''"
      by blast
    then show ?thesis
    proof cases
      case word
      with gt Some show ?thesis by (auto dest: in_sync_process_word)
    next
      case num
      with gt Some s2 show ?thesis by (auto dest: in_sync_process_number)
    next
      case str
      with gt Some obtain t1 s3 where "process_string tk (next_char s2) = Inr (t1, s3)"
        and "s' = next_char s3"
        by (auto split: sum.splits)
      with s2 show ?thesis
        by (auto intro!: in_sync_next_char dest!: in_sync_process_string)
    next
      case com
      let ?n = "(next_char s2)\<lparr>position := (position (next_char s2))\<lparr>col := col (position (next_char s2)) - 1\<rparr>\<rparr>"
      from gt Some com obtain s3 where sk: "skip_comment ?n = Inr s3"
        and g: "get_token tk s3 = Inr (t, s')"
        by (auto split: sum.splits)
      from com Some have c1: "\<not> (isalpha c \<or> c = CHR ''_'')" "\<not> isdigit c" "c \<noteq> CHR 0x22" "c = CHR ''{''"
        by auto
      show ?thesis
        by (rule "1.IH" [OF refl refl Some [unfolded s2_def] c1 sk [unfolded s2_def] g])
    next
      case pun
      with gt Some s2 show ?thesis
        by (auto split: option.splits dest: in_sync_punctuation)
    qed
  qed
qed

lemma get_token_eof:
  assumes "ch s = None" and "in_sync s"
  shows "get_token tk s = Inr (tk\<lparr>toktype := TOK_EOF\<rparr>, s)"
proof -
  from assms(1) have "skip_space s = s" by (simp add: skip_space.simps)
  moreover from assms(2) have "s\<lparr>position := (position s)\<lparr>col := column_number s\<rparr>\<rparr> = s"
    by (simp add: in_sync_def)
  ultimately show ?thesis using assms(1) by (simp add: get_token.simps)
qed

lemmas scan_eval = init_scanner_def next_char_def get_token.simps skip_space.simps
  skip_comment_def skip_comment_loop.simps process_string_def process_string_loop.simps
  isspace_def isalpha_def isdigit_def Let_def tok0_def punctuation_def

text \<open>
  Claim C10, as amended. Once the lookahead character is \<^verbatim>\<open>EOF\<close>, every call of
  \<^verbatim>\<open>get_token\<close>, in whatever state, returns without error and sets the type of the token to
  \<^verbatim>\<open>TOK_EOF\<close>. It leaves the scanner state as it was but for \<^verbatim>\<open>position.col\<close>, which it sets
  to \<^verbatim>\<open>column_number\<close>. In the state it returns, every later call returns \<^verbatim>\<open>TOK_EOF\<close> and
  that same state again. In a state that \<^verbatim>\<open>init_scanner\<close> or a successful call of
  \<^verbatim>\<open>get_token\<close> has left, the first call already changes nothing.
\<close>

theorem get_token_eof_forever:
  assumes "ch s = None"
  shows "get_token tk s = Inr (tk\<lparr>toktype := TOK_EOF\<rparr>, set_col (column_number s) s)
       \<and> get_token tk' (set_col (column_number s) s)
           = Inr (tk'\<lparr>toktype := TOK_EOF\<rparr>, set_col (column_number s) s)
       \<and> (s = init_scanner in_file \<or> get_token token0 s0 = Inr (token1, s) \<longrightarrow>
            get_token tk s = Inr (tk\<lparr>toktype := TOK_EOF\<rparr>, s))"
proof (intro conjI impI)
  from assms have sp: "skip_space s = s" by (simp add: skip_space.simps)
  with assms show "get_token tk s = Inr (tk\<lparr>toktype := TOK_EOF\<rparr>, set_col (column_number s) s)"
    by (simp add: get_token.simps set_col_def)
  have "ch (set_col (column_number s) s) = None" "in_sync (set_col (column_number s) s)"
    using assms by (simp_all add: set_col_def in_sync_def)
  then show "get_token tk' (set_col (column_number s) s)
      = Inr (tk'\<lparr>toktype := TOK_EOF\<rparr>, set_col (column_number s) s)"
    by (rule get_token_eof)
next
  assume "s = init_scanner in_file \<or> get_token token0 s0 = Inr (token1, s)"
  then have "in_sync s"
    by (auto simp: in_sync_init_scanner dest: in_sync_get_token)
  with assms show "get_token tk s = Inr (tk\<lparr>toktype := TOK_EOF\<rparr>, s)" by (rule get_token_eof)
qed

theorem get_token_eof_forever_witness:
  "get_token tok0 (init_scanner []) = Inr (tok0, init_scanner [])
   \<and> get_token (tok0\<lparr>toktype := TOK_ID, lexeme := ''ab''\<rparr>)
        \<lparr>src = [], ch = None, position = \<lparr>line = 1, col = 7\<rparr>, column_number = 8\<rparr>
       = Inr (tok0\<lparr>lexeme := ''ab''\<rparr>,
              \<lparr>src = [], ch = None, position = \<lparr>line = 1, col = 8\<rparr>, column_number = 8\<rparr>)
   \<and> get_token tok0
        \<lparr>src = [], ch = None, position = \<lparr>line = 1, col = 8\<rparr>, column_number = 8\<rparr>
       = Inr (tok0,
              \<lparr>src = [], ch = None, position = \<lparr>line = 1, col = 8\<rparr>, column_number = 8\<rparr>)"
proof -
  let ?s = "\<lparr>src = [], ch = None, position = \<lparr>line = 1, col = 7\<rparr>, column_number = 8\<rparr>"
  have e: "ch (init_scanner []) = None" by (simp add: init_scanner_def next_char_def)
  have 1: "get_token tok0 (init_scanner []) = Inr (tok0, init_scanner [])"
    using get_token_eof_forever [OF e, where tk = tok0 and in_file = "[]", THEN conjunct2, THEN conjunct2]
    by (simp add: tok0_def)
  have c: "ch ?s = None" by simp
  have 2: "get_token (tok0\<lparr>toktype := TOK_ID, lexeme := ''ab''\<rparr>) ?s
       = Inr (tok0\<lparr>lexeme := ''ab''\<rparr>,
              \<lparr>src = [], ch = None, position = \<lparr>line = 1, col = 8\<rparr>, column_number = 8\<rparr>)"
    using get_token_eof_forever [OF c, where tk = "tok0\<lparr>toktype := TOK_ID, lexeme := ''ab''\<rparr>",
        THEN conjunct1]
    by (simp add: tok0_def set_col_def)
  have 3: "get_token tok0
        \<lparr>src = [], ch = None, position = \<lparr>line = 1, col = 8\<rparr>, column_number = 8\<rparr>
       = Inr (tok0,
              \<lparr>src = [], ch = None, position = \<lparr>line = 1, col = 8\<rparr>, column_number = 8\<rparr>)"
    using get_token_eof_forever [OF c, where tk' = tok0, THEN conjunct2, THEN conjunct1]
    by (simp add: tok0_def set_col_def)
  from 1 2 3 show ?thesis by simp
qed

subsection \<open>Numbers\<close>

lemma ahead_next_char: "ahead (next_char s) = src s"
  by (auto simp: ahead_def next_char_def Let_def split: list.splits)

lemma ahead_Cons: "ahead s = c # xs \<Longrightarrow> ch s = Some c \<and> src s = xs"
  by (auto simp: ahead_def split: option.splits)

lemma ahead_Nil: "ahead s = [] \<Longrightarrow> ch s = None"
  by (auto simp: ahead_def split: option.splits)

lemma digit_val_range: "isdigit c \<Longrightarrow> 0 \<le> digit_val c \<and> digit_val c \<le> 9"
  by (auto simp: isdigit_def digit_val_def)

lemma dec_from_Cons: "dec_from v (c # ds) = dec_from (v * 10 + digit_val c) ds"
  by (simp add: dec_from_def)

lemma dec_from_mono:
  "\<forall>c \<in> set ds. isdigit c \<Longrightarrow> 0 \<le> v \<Longrightarrow> v \<le> dec_from v ds"
proof (induction ds arbitrary: v)
  case Nil
  then show ?case by (simp add: dec_from_def)
next
  case (Cons c ds)
  from Cons.prems have d: "0 \<le> digit_val c" using digit_val_range [of c] by simp
  with Cons.prems have "0 \<le> v * 10 + digit_val c" by simp
  with Cons.IH [of "v * 10 + digit_val c"] Cons.prems
  have "v * 10 + digit_val c \<le> dec_from (v * 10 + digit_val c) ds" by simp
  with d Cons.prems(2) show ?case by (simp add: dec_from_Cons)
qed

lemma overflow_check:
  "0 \<le> d \<Longrightarrow> d \<le> 9 \<Longrightarrow> (v > (INT_MAX - d) div 10) = (v * 10 + d > INT_MAX)"
  for v d :: int
proof -
  assume d: "0 \<le> d" "d \<le> 9"
  define q where "q = (INT_MAX - d) div 10"
  define r where "r = (INT_MAX - d) mod 10"
  have e: "INT_MAX - d = q * 10 + r" by (simp add: q_def r_def)
  have r: "0 \<le> r" "r < 10" by (simp_all add: r_def)
  from e r show ?thesis unfolding q_def [symmetric] by linarith
qed

lemma int32_id: "0 \<le> x \<Longrightarrow> x \<le> INT_MAX \<Longrightarrow> int32 x = x"
  by (simp add: int32_def INT_MAX_def)

lemma funpow_next_char_Suc: "(next_char ^^ k) (next_char s) = (next_char ^^ Suc k) s"
  by (simp add: funpow_swap1)

lemma process_number_loop_run:
  assumes "ahead s = ds @ rest" and "\<forall>c \<in> set ds. isdigit c"
    and "rest = [] \<or> \<not> isdigit (hd rest)"
    and "0 \<le> value tk" and "value tk \<le> INT_MAX"
  shows "(dec_from (value tk) ds \<le> INT_MAX \<longrightarrow>
           process_number_loop tk s =
             (if rest \<noteq> [] \<and> (isalpha (hd rest) \<or> hd rest = CHR ''_'')
              then Inl (Lexical (IllegalCharacter (hd rest))
                          (position ((next_char ^^ length ds) s)))
              else Inr (tk\<lparr>value := dec_from (value tk) ds\<rparr>, (next_char ^^ length ds) s)))
       \<and> (dec_from (value tk) ds > INT_MAX \<longrightarrow>
            (\<exists>k < length ds. dec_from (value tk) (take k ds) \<le> INT_MAX
                \<and> dec_from (value tk) (take (Suc k) ds) > INT_MAX
                \<and> process_number_loop tk s
                     = Inl (Lexical NumberTooLarge (position ((next_char ^^ k) s)))))"
  using assms
proof (induction ds arbitrary: tk s)
  case Nil
  show ?case
  proof (cases rest)
    case Nil
    with Nil.prems have "ch s = None" by (simp add: ahead_Nil)
    with Nil Nil.prems show ?thesis
      by (simp add: process_number_loop.simps dec_from_def)
  next
    case (Cons c cs)
    with Nil.prems have "ch s = Some c" "\<not> isdigit c" by (auto dest: ahead_Cons)
    with Cons Nil.prems show ?thesis
      by (simp add: process_number_loop.simps dec_from_def)
  qed
next
  case (Cons c ds)
  let ?v = "value tk"
  let ?d = "digit_val c"
  from Cons.prems(1) have c: "ch s = Some c" and sr: "src s = ds @ rest"
    by (auto dest: ahead_Cons)
  from Cons.prems(2) have dig: "isdigit c" and digs: "\<forall>c \<in> set ds. isdigit c" by auto
  from dig have d: "0 \<le> ?d" "?d \<le> 9" using digit_val_range by auto
  show ?case
  proof (cases "?v > (INT_MAX - ?d) div 10")
    case True
    then have big: "?v * 10 + ?d > INT_MAX" using overflow_check [OF d] by simp
    have "?v * 10 + ?d \<le> dec_from (?v * 10 + ?d) ds"
      using digs d Cons.prems(4) by (intro dec_from_mono) auto
    with big have ov: "dec_from ?v (c # ds) > INT_MAX" by (simp add: dec_from_Cons)
    have run: "process_number_loop tk s = Inl (Lexical NumberTooLarge (position s))"
      using c dig True by (simp add: process_number_loop.simps digit_val_def)
    have "dec_from ?v (take 0 (c # ds)) \<le> INT_MAX" using Cons.prems(5) by (simp add: dec_from_def)
    moreover have "dec_from ?v (take (Suc 0) (c # ds)) > INT_MAX"
      using big by (simp add: dec_from_def)
    ultimately have "\<exists>k < length (c # ds). dec_from ?v (take k (c # ds)) \<le> INT_MAX
                \<and> dec_from ?v (take (Suc k) (c # ds)) > INT_MAX
                \<and> process_number_loop tk s
                     = Inl (Lexical NumberTooLarge (position ((next_char ^^ k) s)))"
      using run by (intro exI [of _ 0]) simp
    with ov show ?thesis by simp
  next
    case False
    then have small: "?v * 10 + ?d \<le> INT_MAX" using overflow_check [OF d] by simp
    from d Cons.prems(4) have nn: "0 \<le> ?v * 10 + ?d" by simp
    let ?t = "tk\<lparr>value := ?v * 10 + ?d\<rparr>"
    have run: "process_number_loop tk s = process_number_loop ?t (next_char s)"
      using c dig False int32_id [OF nn small]
      by (subst process_number_loop.simps) (simp add: digit_val_def)
    have ah: "ahead (next_char s) = ds @ rest" using sr by (simp add: ahead_next_char)
    note IH = Cons.IH [of "next_char s" ?t, OF ah digs Cons.prems(3), simplified, OF nn small]
    have v: "dec_from ?v (c # ds) = dec_from (?v * 10 + ?d) ds" by (simp add: dec_from_Cons)
    show ?thesis
    proof (intro conjI impI)
      assume "dec_from ?v (c # ds) \<le> INT_MAX"
      with IH v run show "process_number_loop tk s =
             (if rest \<noteq> [] \<and> (isalpha (hd rest) \<or> hd rest = CHR ''_'')
              then Inl (Lexical (IllegalCharacter (hd rest))
                          (position ((next_char ^^ length (c # ds)) s)))
              else Inr (tk\<lparr>value := dec_from ?v (c # ds)\<rparr>, (next_char ^^ length (c # ds)) s))"
        by (simp add: funpow_swap1)
    next
      assume "dec_from ?v (c # ds) > INT_MAX"
      with IH v obtain k where k: "k < length ds"
        "dec_from (?v * 10 + ?d) (take k ds) \<le> INT_MAX"
        "dec_from (?v * 10 + ?d) (take (Suc k) ds) > INT_MAX"
        "process_number_loop ?t (next_char s)
           = Inl (Lexical NumberTooLarge (position ((next_char ^^ k) (next_char s))))"
        by auto
      then show "\<exists>k < length (c # ds). dec_from ?v (take k (c # ds)) \<le> INT_MAX
                \<and> dec_from ?v (take (Suc k) (c # ds)) > INT_MAX
                \<and> process_number_loop tk s
                     = Inl (Lexical NumberTooLarge (position ((next_char ^^ k) s)))"
        using run by (intro exI [of _ "Suc k"]) (simp add: dec_from_Cons funpow_swap1)
    qed
  qed
qed

lemma position_digits:
  assumes "ahead s = ds @ rest" and "\<forall>c \<in> set ds. isdigit c" and "k \<le> length ds"
  shows "position ((next_char ^^ k) s) = \<lparr>line = line (position s), col = col (position s) + int k\<rparr>"
  using assms
proof (induction k arbitrary: s ds)
  case 0
  then show ?case by simp
next
  case (Suc k)
  then obtain c ds' where ds: "ds = c # ds'" by (cases ds) auto
  with Suc.prems have c: "ch s = Some c" "src s = ds' @ rest" "isdigit c"
    by (auto dest: ahead_Cons)
  then have nl: "c \<noteq> CHR 0x0A" by (auto simp: isdigit_def)
  have ah: "ahead (next_char s) = ds' @ rest" using c by (simp add: ahead_next_char)
  from Suc.prems ds have "position ((next_char ^^ k) (next_char s))
      = \<lparr>line = line (position (next_char s)), col = col (position (next_char s)) + int k\<rparr>"
    by (intro Suc.IH [OF ah]) auto
  moreover have "position (next_char s) = \<lparr>line = line (position s), col = col (position s) + 1\<rparr>"
    using c nl by (auto simp: next_char_def Let_def split: list.splits)
  ultimately show ?case by (simp add: funpow_swap1)
qed

text \<open>
  Claim C5. \<^verbatim>\<open>process_number\<close> is called on the first digit \<open>c0\<close> of a maximal run of digits
  \<open>c0 # ds\<close>. If the decimal value of the run is at most \<^verbatim>\<open>INT_MAX\<close>, the token has type
  \<^verbatim>\<open>TOK_NUM\<close> and exactly that value (unless a letter or an underscore follows the run,
  which is the error "illegal character"). If the value exceeds \<^verbatim>\<open>INT_MAX\<close>, the error
  "number too large" is raised at the column of the first digit with which the value of
  the digits read so far exceeds \<^verbatim>\<open>INT_MAX\<close>; the value accumulated before it is at most
  \<^verbatim>\<open>INT_MAX\<close>, so nothing has wrapped around.
\<close>

theorem process_number_exact:
  assumes c0: "ch s = Some c0" and d0: "isdigit c0"
    and sr: "src s = ds @ rest" and ds: "\<forall>c \<in> set ds. isdigit c"
    and mx: "rest = [] \<or> \<not> isdigit (hd rest)"
  shows "(dec_val (c0 # ds) \<le> INT_MAX \<longrightarrow>
           process_number tk s =
             (if rest \<noteq> [] \<and> (isalpha (hd rest) \<or> hd rest = CHR ''_'')
              then Inl (Lexical (IllegalCharacter (hd rest))
                          \<lparr>line = line (position s), col = col (position s) + int (Suc (length ds))\<rparr>)
              else Inr (tk\<lparr>value := dec_val (c0 # ds), toktype := TOK_NUM\<rparr>,
                        (next_char ^^ Suc (length ds)) s)))
       \<and> (dec_val (c0 # ds) > INT_MAX \<longrightarrow>
            (\<exists>k. 0 < k \<and> k \<le> length ds
                \<and> dec_val (take k (c0 # ds)) \<le> INT_MAX
                \<and> dec_val (take (Suc k) (c0 # ds)) > INT_MAX
                \<and> process_number tk s
                     = Inl (Lexical NumberTooLarge
                              \<lparr>line = line (position s), col = col (position s) + int k\<rparr>)))"
proof -
  let ?t = "tk\<lparr>value := digit_val c0, toktype := TOK_NUM\<rparr>"
  have pn: "process_number tk s = process_number_loop ?t (next_char s)"
    using c0 by (simp add: process_number_def digit_val_def)
  have ah: "ahead (next_char s) = ds @ rest" using sr by (simp add: ahead_next_char)
  have ah0: "ahead s = (c0 # ds) @ rest" using c0 sr by (simp add: ahead_def)
  have all: "\<forall>c \<in> set (c0 # ds). isdigit c" using d0 ds by simp
  have v0: "0 \<le> value ?t" "value ?t \<le> INT_MAX"
    using digit_val_range [OF d0] by (simp_all add: INT_MAX_def)
  have dv: "dec_from (value ?t) xs = dec_val (c0 # xs)" for xs
    by (simp add: dec_val_def dec_from_Cons)
  note run = process_number_loop_run [OF ah ds mx v0, unfolded dv]
  have pos: "k \<le> length ds \<Longrightarrow> position ((next_char ^^ k) (next_char s))
      = \<lparr>line = line (position s), col = col (position s) + int (Suc k)\<rparr>" for k
    using position_digits [OF ah0 all, of "Suc k"] by (simp add: funpow_swap1)
  show ?thesis
  proof (intro conjI impI)
    assume "dec_val (c0 # ds) \<le> INT_MAX"
    with run pn pos [of "length ds"] show "process_number tk s =
             (if rest \<noteq> [] \<and> (isalpha (hd rest) \<or> hd rest = CHR ''_'')
              then Inl (Lexical (IllegalCharacter (hd rest))
                          \<lparr>line = line (position s), col = col (position s) + int (Suc (length ds))\<rparr>)
              else Inr (tk\<lparr>value := dec_val (c0 # ds), toktype := TOK_NUM\<rparr>,
                        (next_char ^^ Suc (length ds)) s))"
      by (simp add: funpow_swap1)
  next
    assume "dec_val (c0 # ds) > INT_MAX"
    with run obtain k where k: "k < length ds"
      "dec_val (c0 # take k ds) \<le> INT_MAX" "dec_val (c0 # take (Suc k) ds) > INT_MAX"
      "process_number_loop ?t (next_char s)
         = Inl (Lexical NumberTooLarge (position ((next_char ^^ k) (next_char s))))"
      by auto
    with pn pos [of k] show "\<exists>k. 0 < k \<and> k \<le> length ds
                \<and> dec_val (take k (c0 # ds)) \<le> INT_MAX
                \<and> dec_val (take (Suc k) (c0 # ds)) > INT_MAX
                \<and> process_number tk s
                     = Inl (Lexical NumberTooLarge
                              \<lparr>line = line (position s), col = col (position s) + int k\<rparr>)"
      by (intro exI [of _ "Suc k"]) simp
  qed
qed

lemmas num_eval = scan_eval process_number_def process_number_loop.simps INT_MAX_def int32_def
  dec_val_def dec_from_def digit_val_def

theorem process_number_exact_witness:
  "process_number tok0 (init_scanner ''2147483647;'')
     = Inr (tok0\<lparr>value := 2147483647, toktype := TOK_NUM\<rparr>,
            \<lparr>src = [], ch = Some (CHR '';''), position = \<lparr>line = 1, col = 11\<rparr>,
             column_number = 11\<rparr>)
   \<and> process_number tok0 (init_scanner ''2147483648;'')
     = Inl (Lexical NumberTooLarge \<lparr>line = 1, col = 10\<rparr>)
   \<and> process_number tok0 (init_scanner ''12a'')
     = Inl (Lexical (IllegalCharacter (CHR ''a'')) \<lparr>line = 1, col = 3\<rparr>)"
proof -
  have a: "ch (init_scanner ''2147483647;'') = Some (CHR ''2'')"
      "src (init_scanner ''2147483647;'') = ''147483647'' @ '';''"
      "position (init_scanner ''2147483647;'') = \<lparr>line = 1, col = 1\<rparr>"
    by (simp_all add: init_scanner_def next_char_def)
  have b: "ch (init_scanner ''2147483648;'') = Some (CHR ''2'')"
      "src (init_scanner ''2147483648;'') = ''147483648'' @ '';''"
      "position (init_scanner ''2147483648;'') = \<lparr>line = 1, col = 1\<rparr>"
    by (simp_all add: init_scanner_def next_char_def)
  have c: "ch (init_scanner ''12a'') = Some (CHR ''1'')"
      "src (init_scanner ''12a'') = ''2'' @ ''a''"
      "position (init_scanner ''12a'') = \<lparr>line = 1, col = 1\<rparr>"
    by (simp_all add: init_scanner_def next_char_def)
  have d: "isdigit (CHR ''2'')" "isdigit (CHR ''1'')"
      "\<forall>c \<in> set ''147483647''. isdigit c" "\<forall>c \<in> set ''147483648''. isdigit c"
      "\<forall>c \<in> set ''2''. isdigit c"
      "'';'' = [] \<or> \<not> isdigit (hd '';'')" "''a'' = [] \<or> \<not> isdigit (hd ''a'')"
    by (simp_all add: isdigit_def)
  note A = process_number_exact [OF a(1) d(1) a(2) d(3) d(6), of tok0]
  note B = process_number_exact [OF b(1) d(1) b(2) d(4) d(6), of tok0]
  note C = process_number_exact [OF c(1) d(2) c(2) d(5) d(7), of tok0]
  have va: "dec_val ''2147483647'' = 2147483647" "dec_val ''2147483648'' = 2147483648"
     "dec_val ''12'' = 12"
    by (simp_all add: dec_val_def dec_from_def digit_val_def)
  have "process_number tok0 (init_scanner ''2147483647;'')
     = Inr (tok0\<lparr>value := 2147483647, toktype := TOK_NUM\<rparr>,
            \<lparr>src = [], ch = Some (CHR '';''), position = \<lparr>line = 1, col = 11\<rparr>,
             column_number = 11\<rparr>)"
    using A va by (simp add: INT_MAX_def isalpha_def init_scanner_def next_char_def)
  moreover have "process_number tok0 (init_scanner ''12a'')
     = Inl (Lexical (IllegalCharacter (CHR ''a'')) \<lparr>line = 1, col = 3\<rparr>)"
    using C va c(3) by (simp add: INT_MAX_def isalpha_def)
  moreover have "process_number tok0 (init_scanner ''2147483648;'')
     = Inl (Lexical NumberTooLarge \<lparr>line = 1, col = 10\<rparr>)"
  proof -
    from B va obtain k where k: "0 < k" "k \<le> 9"
      "dec_val (take k ''2147483648'') \<le> INT_MAX" "dec_val (take (Suc k) ''2147483648'') > INT_MAX"
      "process_number tok0 (init_scanner ''2147483648;'')
         = Inl (Lexical NumberTooLarge \<lparr>line = 1, col = 1 + int k\<rparr>)"
      using b(3) by (auto simp: INT_MAX_def)
    have "k = 9"
    proof (rule ccontr)
      assume "k \<noteq> 9"
      with k(1,2) have "k \<in> {1, 2, 3, 4, 5, 6, 7, 8}" by auto
      with k(4) show False
        by (auto simp: dec_val_def dec_from_def digit_val_def INT_MAX_def)
    qed
    with k(5) show ?thesis by simp
  qed
  ultimately show ?thesis by simp
qed

subsection \<open>Comments and strings\<close>













text \<open>
  Claim C4. A string that is not closed before the end of the file is reported at the
  column of its opening quote but at the line before it: \<^verbatim>\<open>process_string\<close> saves
  \<^verbatim>\<open>position.line - 1\<close>. The opening quote is at line 1, column 1 here.
\<close>

theorem unclosed_string_position:
  "get_token tok0 (init_scanner (CHR 0x22 # ''abc''))
     = Inl (Lexical StringNotClosed \<lparr>line = 0, col = 1\<rparr>)
   \<and> ch (init_scanner (CHR 0x22 # ''abc'')) = Some (CHR 0x22)
   \<and> position (init_scanner (CHR 0x22 # ''abc'')) = \<lparr>line = 1, col = 1\<rparr>"
  by (simp add: scan_eval)

section \<open>The expression parser: evaluation and calls\<close>

text \<open>Each parse function with one more unit of fuel is its body over the others.\<close>

lemma parse_expr_unfold:
  "0 < n \<Longrightarrow> parse_expr n ty p = parse_expr_body (parse_simple (n - 1)) ty p"
  by (cases n) (simp_all add: parse_expr_def parse_simple_def Let_def)

lemma parse_simple_unfold:
  "0 < n \<Longrightarrow> parse_simple n ty p
     = parse_simple_body (parse_term (n - 1)) (parse_simple_loop (n - 1)) ty p"
  by (cases n) (simp_all add: parse_simple_def parse_term_def parse_simple_loop_def Let_def)

lemma parse_simple_loop_unfold:
  "0 < n \<Longrightarrow> parse_simple_loop n type1 type2 ty p
     = parse_simple_loop_body (parse_term (n - 1)) (parse_simple_loop (n - 1)) type1 type2 ty p"
  by (cases n) (simp_all add: parse_term_def parse_simple_loop_def Let_def)

lemma parse_term_unfold:
  "0 < n \<Longrightarrow> parse_term n ty p
     = parse_term_body (parse_factor (n - 1)) (parse_term_loop (n - 1)) ty p"
  by (cases n) (simp_all add: parse_term_def parse_factor_def parse_term_loop_def Let_def)

lemma parse_term_loop_unfold:
  "0 < n \<Longrightarrow> parse_term_loop n type1 type2 ty p
     = parse_term_loop_body (parse_factor (n - 1)) (parse_term_loop (n - 1)) type1 type2 ty p"
  by (cases n) (simp_all add: parse_factor_def parse_term_loop_def Let_def)

lemma parse_factor_unfold:
  "0 < n \<Longrightarrow> parse_factor n ty p
     = parse_factor_body (parse_expr (n - 1)) (parse_simple (n - 1)) (parse_factor (n - 1))
         (parse_factor_loop (n - 1)) ty p"
  by (cases n)
     (simp_all add: parse_factor_def parse_expr_def parse_simple_def parse_factor_loop_def Let_def)

lemma parse_factor_loop_unfold:
  "0 < n \<Longrightarrow> parse_factor_loop n ty p
     = parse_factor_loop_body (parse_expr (n - 1)) (parse_factor_loop (n - 1)) ty p"
  by (cases n) (simp_all add: parse_expr_def parse_factor_loop_def Let_def)

lemmas parse_unfold = parse_expr_unfold parse_simple_unfold parse_simple_loop_unfold
  parse_term_unfold parse_term_loop_unfold parse_factor_unfold parse_factor_loop_unfold

lemmas word_eval = process_word_def process_word_loop.simps MAX_ID_LENGTH_def
  search_reserved.simps NUM_RESERVED_WORDS_def reserved_def
  process_number_def process_number_loop.simps INT_MAX_def int32_def

lemmas parse_eval = parse_unfold parse_expr_body_def parse_simple_body_def
  parse_simple_loop_body_def parse_term_body_def parse_term_loop_body_def
  parse_factor_body_def parse_factor_loop_body_def call_args_def call_args_loop.simps
  do_args_def do_args_loop.simps parse_do_def
  start_def main_example_def next_token_def expect_def expect_id_def inc_stack_depth_def
  check_types_def param_at_def find_name_def ht_at_def idprop_def abort_compile_def
  STARTS_FACTOR_def STARTS_EXPR_def IS_ADDOP_def IS_MULOP_def IS_RELOP_def
  IS_ARRAY_def IS_ARRAY_TYPE_def IS_CALLABLE_TYPE_def IS_BOOLEAN_TYPE_def IS_INTEGER_TYPE_def
  IS_PROCEDURE_def IS_FUNCTION_def IS_VARIABLE_def c_true_def
  TYPE_NONE_def TYPE_ARRAY_def TYPE_BOOLEAN_def TYPE_INTEGER_def TYPE_CALLABLE_def

subsection \<open>Ordering operators\<close>

text \<open>
  Claim C7. In \<^verbatim>\<open>parse_expr\<close>, an ordering operator accepts a call of a function that
  returns an integer as its left operand, since the test of the left operand masks the
  callable bit of the type: \<open>f(2) < 1\<close> is parsed to the end with type boolean. The right
  operand is tested by \<^verbatim>\<open>check_types(type2, TYPE_INTEGER, ...)\<close> with the callable bit still
  set, so \<open>1 < f(2)\<close> is rejected as a type error: an integer was expected and the type
  found is that of a function returning an integer. \<open>f\<close> has one integer parameter and
  returns an integer.
\<close>

theorem ordering_right_operand:
  "(case start ''f(2) < 1'' main_example of
      Inl e \<Rightarrow> False
    | Inr p \<Rightarrow>
        (case parse_expr 12 0 p of
           Inl e \<Rightarrow> False
         | Inr (t, p1) \<Rightarrow> t = TYPE_BOOLEAN \<and> toktype (token p1) = TOK_EOF))
   \<and> (case start ''1 < f(2)'' main_example of
        Inl e \<Rightarrow> False
      | Inr p \<Rightarrow>
          parse_expr 12 0 p = Inl (Incompatible (TYPE_CALLABLE OR TYPE_INTEGER) TYPE_INTEGER))"
  by (simp add: parse_eval scan_eval word_eval)

subsection \<open>The number of arguments of a call\<close>

lemma check_types_None: "(check_types a b = None) = (a = b)"
  by (simp add: check_types_def)


lemma unat_word_of_nat_small: "j < 2 ^ 31 \<Longrightarrow> unat (word_of_nat j :: 32 word) = j"
  by (simp add: unat_of_nat)








subsection \<open>The end of the file in \<^verbatim>\<open>parse_varseq\<close>\<close>

text \<open>
  Claim C10 as stated fails in a state in which \<^verbatim>\<open>position.col\<close> is not \<^verbatim>\<open>column_number\<close>, and
  the parser calls \<^verbatim>\<open>get_token\<close> in such states. The source text here is \<open>vars ab\<close>, as at
  the end of a program that breaks off after the first identifier of a declaration.
  \<^verbatim>\<open>parse_body\<close> calls \<^verbatim>\<open>expect(TOK_VARS)\<close>, which reads \<open>ab\<close> and reaches the end of the file
  with \<^verbatim>\<open>position.col\<close> and \<^verbatim>\<open>column_number\<close> at 8, and \<^verbatim>\<open>parse_varseq\<close> moves \<^verbatim>\<open>position.col\<close>
  to 7 before \<^verbatim>\<open>expect_id\<close> calls \<^verbatim>\<open>get_token\<close>. That call returns \<^verbatim>\<open>TOK_EOF\<close> and changes
  \<^verbatim>\<open>position.col\<close> back to 8.
\<close>

theorem get_token_eof_moves_position:
  "(case start ''vars ab'' main_example of
      Inl e \<Rightarrow> False
    | Inr p0 \<Rightarrow>
        (case expect TOK_VARS p0 of
           Inl e \<Rightarrow> False
         | Inr p1 \<Rightarrow>
             toktype (token p1) = TOK_ID
           \<and> ch (scan (parse_varseq_before_id p1)) = None
           \<and> position (scan (parse_varseq_before_id p1)) = \<lparr>line = 1, col = 7\<rparr>
           \<and> (case get_token (token (parse_varseq_before_id p1))
                      (scan (parse_varseq_before_id p1)) of
                 Inl e \<Rightarrow> False
               | Inr (t, s) \<Rightarrow> toktype t = TOK_EOF \<and> position s = \<lparr>line = 1, col = 8\<rparr>)))"
  by (simp add: parse_eval scan_eval word_eval parse_varseq_before_id_def set_col_def)

end
